theory Spec2Isabelle
  imports Complex_Main "HOL-Library.Word" "HOL-Library.AList" "HOL-Library.Sublist"
begin

unbundle bit_operations_syntax

section \<open>Common data\<close>

text \<open>
  The PowerOcean integration is Python. Its values are modelled as follows.
  \<^item> A \<open>str\<close> is a \<open>string\<close>; one \<open>char\<close> stands for one code point (below 256), so
    \<open>length\<close> is Python's \<open>len\<close>.
  \<^item> A \<open>bytes\<close> object is a list of 8-bit words.
  \<^item> A parsed JSON document is a \<open>json\<close> value. An \<open>int\<close> is unbounded; a \<open>float\<close> is
    idealised as the exact rational it stands for (rounding is not modelled), but it
    keeps its own constructor, so \<open>22.0\<close> (\<open>JFloat 22\<close>) and \<open>22\<close> (\<open>JInt 22\<close>) differ.
  \<^item> A \<open>dict\<close> is an association list with \<open>AList.update\<close> as item assignment: a new
    key is appended, an existing key keeps its position, as in Python (insertion order).
  \<^item> A raised exception is the \<open>Inl\<close> of a sum; \<open>Inr\<close> is the returned value.
\<close>

type_synonym byte = "8 word"
type_synonym bytes = "byte list"

datatype exn =
    KeyError | TypeError | AttributeError | IndexError | ValueError
  | ZeroDivisionError | JSONDecodeError | StructError | OtherException

datatype json =
    JNull | JBool bool | JInt int | JFloat rat | JStr string
  | JArr "json list" | JObj "(string \<times> json) list"

text \<open>\<open>sub in s\<close> on strings: \<open>sub\<close> occurs in \<open>s\<close> as a contiguous block.\<close>

definition str_in :: "string \<Rightarrow> string \<Rightarrow> bool" where
  "str_in sub s = sublist sub s"

text \<open>\<open>dict.update(sensors, data)\<close>: the items of \<open>data\<close> are assigned in their order.\<close>

definition dict_update :: "('k \<times> 'v) list \<Rightarrow> ('k \<times> 'v) list \<Rightarrow> ('k \<times> 'v) list" where
  "dict_update sensors data_items = fold (\<lambda>(k, v). AList.update k v) data_items sensors"

section \<open>protobuf\_handler.py: the payload decoder and the device state store\<close>

subsection \<open>\<open>_decode_varint\<close>\<close>

text \<open>
  The loop of \<open>_decode_varint\<close>. The first argument is \<open>buffer[offset:]\<close>, the bytes not
  read yet; an exhausted buffer raises \<open>ValueError("Malformed varint")\<close>.
\<close>

fun decode_varint_loop :: "bytes \<Rightarrow> nat \<Rightarrow> nat \<Rightarrow> nat \<Rightarrow> exn + (nat \<times> nat)" where
  "decode_varint_loop [] val shift offset = Inl ValueError"
| "decode_varint_loop (b # buffer) val shift offset =
     (let val' = val OR push_bit shift (unat (b AND 0x7f)) in
      if b AND 0x80 = 0 then Inr (val', offset + 1)
      else decode_varint_loop buffer val' (shift + 7) (offset + 1))"

definition decode_varint :: "bytes \<Rightarrow> exn + (nat \<times> nat)" where
  "decode_varint buffer = decode_varint_loop buffer 0 0 0"

subsection \<open>\<open>_decode_property_message\<close>\<close>

datatype pb_value = PInt nat | PBytes bytes

type_synonym pb_values = "(nat \<times> pb_value) list"

text \<open>
  What a decoder returns: the parsed JSON document, \<open>{"values": values}\<close> of the
  property decoder, or \<open>{"raw_hex": hex, "values": values}\<close> of the generic one.
\<close>

datatype decoded = JsonData json | Values pb_values | RawHex string pb_values

text \<open>\<open>struct.unpack(">I", b)\<close>, \<open>struct.unpack("<I", b)\<close> and \<open>struct.unpack("<Q", b)\<close>:
  a buffer of another size than the format's raises \<open>struct.error\<close>.\<close>

fun le_nat :: "bytes \<Rightarrow> nat" where
  "le_nat [] = 0"
| "le_nat (b # bs) = unat b + 256 * le_nat bs"

definition be_nat :: "bytes \<Rightarrow> nat" where
  "be_nat bs = le_nat (rev bs)"

definition unpack_le :: "nat \<Rightarrow> bytes \<Rightarrow> exn + nat" where
  "unpack_le n bs = (if length bs = n then Inr (le_nat bs) else Inl StructError)"

text \<open>The slice \<open>b[i:j]\<close> for \<open>0 \<le> i \<le> j\<close>: it is cut at the end of \<open>b\<close>, never an error.\<close>

definition slice :: "'a list \<Rightarrow> nat \<Rightarrow> nat \<Rightarrow> 'a list" where
  "slice b i j = take (j - i) (drop i b)"

text \<open>
  The \<open>while offset < len(msg_payload)\<close> loop. An unknown wire type leaves the loop
  (\<open>break\<close>) with the fields parsed so far; an exception of \<open>_decode_varint\<close> or of
  \<open>struct.unpack\<close> leaves it as \<open>Inl\<close>.
\<close>

function parse_fields :: "bytes \<Rightarrow> nat \<Rightarrow> pb_values \<Rightarrow> exn + pb_values" where
  "parse_fields msg_payload offset vals =
     (if offset < length msg_payload then
        let field_id = unat (drop_bit 3 (msg_payload ! offset));
            wire_type = unat ((msg_payload ! offset) AND 0x07);
            offset1 = offset + 1
        in if wire_type = 0 then
             (case decode_varint (drop offset1 msg_payload) of
                Inl e \<Rightarrow> Inl e
              | Inr (v, bytes_read) \<Rightarrow>
                  parse_fields msg_payload (offset1 + bytes_read)
                    (AList.update field_id (PInt v) vals))
           else if wire_type = 1 then
             (case unpack_le 8 (slice msg_payload offset1 (offset1 + 8)) of
                Inl e \<Rightarrow> Inl e
              | Inr v \<Rightarrow>
                  parse_fields msg_payload (offset1 + 8)
                    (AList.update field_id (PInt v) vals))
           else if wire_type = 2 then
             (case decode_varint (drop offset1 msg_payload) of
                Inl e \<Rightarrow> Inl e
              | Inr (len, bytes_read) \<Rightarrow>
                  parse_fields msg_payload (offset1 + bytes_read + len)
                    (AList.update field_id
                       (PBytes (slice msg_payload (offset1 + bytes_read)
                                  (offset1 + bytes_read + len))) vals))
           else if wire_type = 5 then
             (case unpack_le 4 (slice msg_payload offset1 (offset1 + 4)) of
                Inl e \<Rightarrow> Inl e
              | Inr v \<Rightarrow>
                  parse_fields msg_payload (offset1 + 4)
                    (AList.update field_id (PInt v) vals))
           else Inr vals
      else Inr vals)"
  by pat_completeness auto
termination
  by (relation "measure (\<lambda>(msg_payload, offset, vals). length msg_payload - offset)") auto

declare parse_fields.simps [simp del]

text \<open>
  \<open>try: ... except Exception as e: log; return None\<close>, the frame of every decoder: whatever
  the body raises becomes the result \<open>None\<close>.
\<close>

definition except_return_None :: "exn + 'a option \<Rightarrow> exn + 'a option" where
  "except_return_None body = (case body of Inl e \<Rightarrow> Inr None | Inr r \<Rightarrow> Inr r)"

text \<open>
  \<open>_decode_property_message\<close>: the two length checks return \<open>None\<close>; then the fields of
  \<open>payload[4:4+msg_len]\<close> are parsed.
\<close>

definition decode_property_message :: "bytes \<Rightarrow> exn + decoded option" where
  "decode_property_message payload =
     except_return_None
       (if length payload < 4 then Inr None
        else let msg_len = be_nat (take 4 payload) in
          if length payload < msg_len + 4 then Inr None
          else let msg_payload = slice payload 4 (4 + msg_len) in
            (case parse_fields msg_payload 0 [] of
               Inl e \<Rightarrow> Inl e
             | Inr vals \<Rightarrow> Inr (Some (Values vals))))"

subsection \<open>\<open>_decode_device_property\<close>, \<open>_decode_binary_message\<close>, \<open>decode_message\<close>\<close>

text \<open>
  \<open>base64.b64decode\<close> and \<open>json.loads\<close> are the standard library's; the decoders take
  them as parameters. \<open>json.loads\<close> raises \<open>json.JSONDecodeError\<close> on a text that is no
  JSON document, and may raise another exception (a payload that is no text at all).
\<close>

definition decode_device_property :: "(bytes \<Rightarrow> exn + bytes) \<Rightarrow> bytes \<Rightarrow> exn + decoded option" where
  "decode_device_property b64decode payload =
     except_return_None
       (let decoded_payload = (case b64decode payload of Inl e \<Rightarrow> payload | Inr d \<Rightarrow> d)
        in decode_property_message decoded_payload)"

definition hex_digit :: "nat \<Rightarrow> char" where
  "hex_digit n = ''0123456789abcdef'' ! n"

definition bytes_hex :: "bytes \<Rightarrow> string" where
  "bytes_hex payload =
     concat (map (\<lambda>b. [hex_digit (unat b div 16), hex_digit (unat b mod 16)]) payload)"

definition decode_binary_message :: "bytes \<Rightarrow> exn + decoded option" where
  "decode_binary_message payload = except_return_None (Inr (Some (RawHex (bytes_hex payload) [])))"

definition decode_message ::
  "(bytes \<Rightarrow> exn + json) \<Rightarrow> (bytes \<Rightarrow> exn + bytes) \<Rightarrow> string \<Rightarrow> bytes \<Rightarrow> exn + decoded option" where
  "decode_message json_loads b64decode topic payload =
     except_return_None
       (case json_loads payload of
          Inr json_data \<Rightarrow> Inr (Some (JsonData json_data))
        | Inl e \<Rightarrow>
            if e \<noteq> JSONDecodeError then Inl e
            else if str_in ''property/get_reply'' topic \<or> str_in ''property/set_reply'' topic
              then decode_property_message payload
            else if str_in ''device/property'' topic
              then decode_device_property b64decode payload
            else decode_binary_message payload)"

subsection \<open>The reference encoder\<close>

text \<open>
  Modelled from the spec: the reference encoder of the round-trip property, which is
  not part of the sources (the spec calls it test-only). It writes the format of the
  spec's section 4.2: a 4-byte big-endian length, then for each field one leading byte
  (field number in the upper five bits, wire type in the low three) and the value:
  wire type 0 a varint (7 data bits per byte, least significant group first,
  high bit set on all but the last byte), 1 eight bytes little-endian, 2 a varint
  length and that many bytes, 5 four bytes little-endian. A field number that does
  not fit the leading byte, a fixed-width value that does not fit its width and a
  body too long for the length prefix cannot be encoded.
\<close>

datatype wire_value = Varint nat | Fixed64 nat | LengthDelimited bytes | Fixed32 nat

function encode_varint :: "nat \<Rightarrow> bytes" where
  "encode_varint n =
     (if n < 128 then [of_nat n] else of_nat (n mod 128 + 128) # encode_varint (n div 128))"
  by pat_completeness auto
termination
  by (relation "measure id") auto

declare encode_varint.simps [simp del]

fun pack_le :: "nat \<Rightarrow> nat \<Rightarrow> bytes" where
  "pack_le 0 v = []"
| "pack_le (Suc k) v = of_nat (v mod 256) # pack_le k (v div 256)"

definition pack_be :: "nat \<Rightarrow> nat \<Rightarrow> bytes" where
  "pack_be k v = rev (pack_le k v)"

fun wire_type_of :: "wire_value \<Rightarrow> nat" where
  "wire_type_of (Varint n) = 0"
| "wire_type_of (Fixed64 n) = 1"
| "wire_type_of (LengthDelimited bs) = 2"
| "wire_type_of (Fixed32 n) = 5"

fun encode_value :: "wire_value \<Rightarrow> bytes" where
  "encode_value (Varint n) = encode_varint n"
| "encode_value (Fixed64 n) = pack_le 8 n"
| "encode_value (LengthDelimited bs) = encode_varint (length bs) @ bs"
| "encode_value (Fixed32 n) = pack_le 4 n"

fun encode_field :: "nat \<times> wire_value \<Rightarrow> bytes" where
  "encode_field (field_id, w) = of_nat (field_id * 8 + wire_type_of w) # encode_value w"

fun encodable :: "nat \<times> wire_value \<Rightarrow> bool" where
  "encodable (field_id, Fixed64 n) = (field_id < 32 \<and> n < 2 ^ 64)"
| "encodable (field_id, Fixed32 n) = (field_id < 32 \<and> n < 2 ^ 32)"
| "encodable (field_id, w) = (field_id < 32)"

definition encode :: "(nat \<times> wire_value) list \<Rightarrow> bytes option" where
  "encode field_list =
     (let body = concat (map encode_field field_list)
      in if list_all encodable field_list \<and> length body < 2 ^ 32
         then Some (pack_be 4 (length body) @ body) else None)"

text \<open>What the decoder stores for a field: an integer, or the raw bytes.\<close>

fun decoded_value :: "wire_value \<Rightarrow> pb_value" where
  "decoded_value (Varint n) = PInt n"
| "decoded_value (Fixed64 n) = PInt n"
| "decoded_value (LengthDelimited bs) = PBytes bs"
| "decoded_value (Fixed32 n) = PInt n"

subsection \<open>\<open>_merge_state\<close>\<close>

text \<open>
  \<open>_merge_state(current, new_data)\<close> mutates \<open>current\<close> in place; the model returns the
  dict \<open>current\<close> has become. The loop runs over \<open>new_data.items()\<close>.
\<close>

fun merge_state :: "(string \<times> json) list \<Rightarrow> (string \<times> json) list \<Rightarrow> (string \<times> json) list" where
  "merge_state current [] = current"
| "merge_state current ((key, v) # new_data) =
     (case (v, map_of current key) of
        (JObj new_sub, Some (JObj cur_sub)) \<Rightarrow>
           merge_state (AList.update key (JObj (merge_state cur_sub new_sub)) current) new_data
      | _ \<Rightarrow> merge_state (AList.update key v current) new_data)"

section \<open>mqtt\_client.py: the stream session manager\<close>

subsection \<open>Topics (const.py)\<close>

definition MQTT_TOPIC_DEVICE_STATUS :: "string \<Rightarrow> string" where
  "MQTT_TOPIC_DEVICE_STATUS device_sn = ''thingspro/device/'' @ device_sn @ ''/status''"

definition MQTT_TOPIC_DEVICE_PROPERTY :: "string \<Rightarrow> string" where
  "MQTT_TOPIC_DEVICE_PROPERTY device_sn = ''thingspro/device/'' @ device_sn @ ''/properties''"

definition MQTT_TOPIC_PROPERTY_SET_RESULT :: "string \<Rightarrow> string" where
  "MQTT_TOPIC_PROPERTY_SET_RESULT device_sn =
     ''thingspro/device/'' @ device_sn @ ''/property/set/result''"

subsection \<open>The client's state\<close>

text \<open>
  The fields of \<open>PowerOceanMqttClient\<close> that its methods read and write. \<open>mqtt_client\<close>
  is whether \<open>self.mqtt_client\<close> is an object (not \<open>None\<close>); a callback is any value of
  type \<open>'cb\<close>; \<open>message_queue\<close> holds the queued \<open>(topic, payload)\<close> pairs, oldest first.
\<close>

record 'cb mqtt_client_state =
  mqtt_client :: bool
  connected :: bool
  subscribed_topics :: "string set"
  message_callbacks :: "(string \<times> 'cb) list"
  device_data :: "(string \<times> (string \<times> json) list) list"
  message_queue :: "(string \<times> string) list"

definition init_state :: "'cb mqtt_client_state" where
  "init_state = \<lparr> mqtt_client = False, connected = False, subscribed_topics = {},
     message_callbacks = [], device_data = [], message_queue = [] \<rparr>"

subsection \<open>Connection callbacks, \<open>disconnect\<close>, \<open>async_connect\<close>\<close>

definition on_connect :: "int \<Rightarrow> 'cb mqtt_client_state \<Rightarrow> 'cb mqtt_client_state" where
  "on_connect rc st = st\<lparr>connected := (rc = 0)\<rparr>"

definition on_disconnect :: "'cb mqtt_client_state \<Rightarrow> 'cb mqtt_client_state" where
  "on_disconnect st = st\<lparr>connected := False\<rparr>"

definition on_message :: "string \<Rightarrow> string \<Rightarrow> 'cb mqtt_client_state \<Rightarrow> 'cb mqtt_client_state" where
  "on_message topic payload st = st\<lparr>message_queue := message_queue st @ [(topic, payload)]\<rparr>"

definition disconnect :: "'cb mqtt_client_state \<Rightarrow> 'cb mqtt_client_state" where
  "disconnect st =
     (if mqtt_client st
      then st\<lparr>mqtt_client := False, connected := False, subscribed_topics := {}\<rparr>
      else st)"

text \<open>
  \<open>async_connect\<close>. What the broker library does is the parameter: starting the
  connection raises, or it is started and, while the method waits, \<open>on_connect\<close> is
  called with a result code or not at all (the ten seconds pass).
\<close>

datatype connect_outcome = ConnectRaises | ConnectStarted "int option"

definition async_connect ::
  "connect_outcome \<Rightarrow> 'cb mqtt_client_state \<Rightarrow> bool \<times> 'cb mqtt_client_state" where
  "async_connect outcome st =
     (if mqtt_client st then (connected st, st)
      else let st1 = st\<lparr>mqtt_client := True\<rparr> in
        (case outcome of
           ConnectRaises \<Rightarrow> (False, disconnect st1)
         | ConnectStarted None \<Rightarrow> (connected st1, st1)
         | ConnectStarted (Some rc) \<Rightarrow> (connected (on_connect rc st1), on_connect rc st1)))"

subsection \<open>\<open>async_subscribe_to_device\<close>, \<open>async_publish\<close>, \<open>register_message_callback\<close>\<close>

text \<open>
  What \<open>self.mqtt_client.subscribe(topic, qos)\<close> does is the parameter \<open>broker\<close>: it returns
  the result code \<open>MQTT_ERR_SUCCESS\<close> or another one, or it raises. The method's result is
  the returned flag, the new state, and the topics it asked the broker to subscribe, in
  order. Without a client object (\<open>mqtt_client\<close> is \<open>None\<close>) the first call raises
  \<open>AttributeError\<close> before any request is made; \<open>except Exception\<close> returns \<open>False\<close>.
\<close>

datatype subscribe_result = MQTT_ERR_SUCCESS | MQTT_ERR_OTHER | SubscribeRaises

definition async_subscribe_to_device ::
  "(string \<Rightarrow> subscribe_result) \<Rightarrow> 'cb mqtt_client_state \<Rightarrow> string
     \<Rightarrow> bool \<times> 'cb mqtt_client_state \<times> string list" where
  "async_subscribe_to_device broker st device_sn =
     (if \<not> connected st then (False, st, [])
      else
        let status_topic = MQTT_TOPIC_DEVICE_STATUS device_sn;
            property_topic = MQTT_TOPIC_DEVICE_PROPERTY device_sn;
            set_result_topic = MQTT_TOPIC_PROPERTY_SET_RESULT device_sn
        in if status_topic \<in> subscribed_topics st then (True, st, [])
           else if \<not> mqtt_client st then (False, st, [])
           else if broker status_topic = SubscribeRaises then (False, st, [status_topic])
           else if broker property_topic = SubscribeRaises
             then (False, st, [status_topic, property_topic])
           else if broker set_result_topic = SubscribeRaises
             then (False, st, [status_topic, property_topic, set_result_topic])
           else if broker status_topic = MQTT_ERR_SUCCESS
                 \<and> broker property_topic = MQTT_ERR_SUCCESS
                 \<and> broker set_result_topic = MQTT_ERR_SUCCESS
             then (True,
                   st\<lparr>subscribed_topics :=
                        insert set_result_topic
                          (insert property_topic (insert status_topic (subscribed_topics st)))\<rparr>,
                   [status_topic, property_topic, set_result_topic])
           else (False, st, [status_topic, property_topic, set_result_topic]))"

text \<open>\<open>async_publish\<close>: \<open>published\<close> is whether the broker library returned success.\<close>

definition async_publish :: "bool \<Rightarrow> 'cb mqtt_client_state \<Rightarrow> bool \<times> 'cb mqtt_client_state" where
  "async_publish published st = (if \<not> connected st then (False, st) else (published, st))"

definition register_message_callback ::
  "string \<Rightarrow> 'cb \<Rightarrow> 'cb mqtt_client_state \<Rightarrow> 'cb mqtt_client_state" where
  "register_message_callback topic_pattern callback st =
     st\<lparr>message_callbacks := AList.update topic_pattern callback (message_callbacks st)\<rparr>"

definition get_device_data :: "'cb mqtt_client_state \<Rightarrow> string \<Rightarrow> (string \<times> json) list" where
  "get_device_data st device_sn =
     (case map_of (device_data st) device_sn of Some d \<Rightarrow> d | None \<Rightarrow> [])"

subsection \<open>\<open>_message_worker\<close>\<close>

text \<open>\<open>s.split(sep)\<close> for a one-character separator.\<close>

fun split_on :: "char \<Rightarrow> string \<Rightarrow> string list" where
  "split_on sep [] = [[]]"
| "split_on sep (c # s) =
     (if c = sep then [] # split_on sep s
      else (case split_on sep s of part # parts \<Rightarrow> (c # part) # parts | [] \<Rightarrow> [[c]]))"

text \<open>
  The loop that looks for the device serial: the first registered pattern that occurs
  in the topic, with a topic of at least three parts, ends it (\<open>break\<close>).
\<close>

fun find_device_sn :: "string list \<Rightarrow> string \<Rightarrow> string option" where
  "find_device_sn [] topic = None"
| "find_device_sn (pattern # patterns) topic =
     (if str_in pattern topic then
        (let parts = split_on CHR ''/'' topic
         in if length parts \<ge> 3 then Some (parts ! 2) else find_device_sn patterns topic)
      else find_device_sn patterns topic)"

text \<open>
  The part of the \<open>try\<close> body that updates \<open>self.device_data\<close>. \<open>if device_sn:\<close> holds for
  a serial that is not the empty string. \<open>payload_data.items()\<close> raises
  \<open>AttributeError\<close> when the payload is not a JSON object; the dict created for a new
  serial just before stays.
\<close>

definition update_device_data ::
  "(string \<times> (string \<times> json) list) list \<Rightarrow> string option \<Rightarrow> string \<Rightarrow> json
     \<Rightarrow> (string \<times> (string \<times> json) list) list \<times> exn option" where
  "update_device_data dd device_sn topic payload_data =
     (case device_sn of
        None \<Rightarrow> (dd, None)
      | Some sn \<Rightarrow>
          if sn = [] then (dd, None)
          else
            let dd1 = (if sn \<notin> fst ` set dd then AList.update sn [] dd else dd)
            in if str_in ''properties'' topic then
                 (case payload_data of
                    JObj props \<Rightarrow>
                      (AList.update sn (dict_update (the (map_of dd1 sn)) props) dd1, None)
                  | _ \<Rightarrow> (dd1, Some AttributeError))
               else (dd1, None))"

text \<open>
  One message of the queue, after \<open>await self._message_queue.get()\<close>. The result is the
  new state and the callbacks scheduled with \<open>async_create_task\<close>, each with its arguments
  \<open>(topic, payload_data)\<close>, in order. \<open>json.loads\<close> is the parameter \<open>json_loads\<close>. Both
  \<open>except\<close> clauses log and go on to the next message.
\<close>

definition process_message ::
  "(string \<Rightarrow> exn + json) \<Rightarrow> 'cb mqtt_client_state \<Rightarrow> string \<times> string
     \<Rightarrow> 'cb mqtt_client_state \<times> ('cb \<times> string \<times> json) list" where
  "process_message json_loads st msg =
     (case msg of (topic, payload) \<Rightarrow>
        (case json_loads payload of
           Inl e \<Rightarrow> (st, [])
         | Inr payload_data \<Rightarrow>
             let device_sn = find_device_sn (map fst (message_callbacks st)) topic
             in (case update_device_data (device_data st) device_sn topic payload_data of
                   (dd, Some e) \<Rightarrow> (st\<lparr>device_data := dd\<rparr>, [])
                 | (dd, None) \<Rightarrow>
                     (st\<lparr>device_data := dd\<rparr>,
                      map (\<lambda>(pattern, callback). (callback, topic, payload_data))
                        (filter (\<lambda>(pattern, callback). str_in pattern topic)
                           (message_callbacks st))))))"

text \<open>The worker takes the oldest message; with an empty queue it waits (\<open>None\<close>).\<close>

definition message_worker_step ::
  "(string \<Rightarrow> exn + json) \<Rightarrow> 'cb mqtt_client_state
     \<Rightarrow> ('cb mqtt_client_state \<times> ('cb \<times> string \<times> json) list) option" where
  "message_worker_step json_loads st =
     (case message_queue st of
        [] \<Rightarrow> None
      | msg # queue \<Rightarrow> Some (process_message json_loads (st\<lparr>message_queue := queue\<rparr>) msg))"

subsection \<open>The states the client can reach\<close>

text \<open>
  From the state \<open>__init__\<close> builds, by any of the client's methods and callbacks, with any
  behaviour of the broker library and of \<open>json.loads\<close>.
\<close>

inductive reachable :: "'cb mqtt_client_state \<Rightarrow> bool" where
  reach_init: "reachable init_state"
| reach_connect: "reachable st \<Longrightarrow> reachable (snd (async_connect outcome st))"
| reach_on_connect: "reachable st \<Longrightarrow> reachable (on_connect rc st)"
| reach_on_disconnect: "reachable st \<Longrightarrow> reachable (on_disconnect st)"
| reach_on_message: "reachable st \<Longrightarrow> reachable (on_message topic payload st)"
| reach_subscribe:
    "reachable st \<Longrightarrow> reachable (fst (snd (async_subscribe_to_device broker st device_sn)))"
| reach_publish: "reachable st \<Longrightarrow> reachable (snd (async_publish published st))"
| reach_register: "reachable st \<Longrightarrow> reachable (register_message_callback topic_pattern callback st)"
| reach_worker:
    "reachable st \<Longrightarrow> message_worker_step json_loads st = Some (st', calls) \<Longrightarrow> reachable st'"
| reach_disconnect: "reachable st \<Longrightarrow> reachable (disconnect st)"

text \<open>A payload string as the bytes the broker delivered (one byte per character).\<close>

definition str_encode :: "string \<Rightarrow> bytes" where
  "str_encode s = map (\<lambda>c. of_nat (of_char c)) s"

text \<open>
  The subscription set is consistent when, for every serial, it holds the device's three
  topics or none of them.
\<close>

definition topics_consistent :: "string set \<Rightarrow> bool" where
  "topics_consistent S =
     (\<forall>sn. (MQTT_TOPIC_DEVICE_STATUS sn \<in> S \<longleftrightarrow> MQTT_TOPIC_DEVICE_PROPERTY sn \<in> S) \<and>
           (MQTT_TOPIC_DEVICE_STATUS sn \<in> S \<longleftrightarrow> MQTT_TOPIC_PROPERTY_SET_RESULT sn \<in> S))"

section \<open>ecoflow.py: the snapshot normalizer\<close>

subsection \<open>Python operations on a parsed document\<close>

definition exn_bind :: "exn + 'a \<Rightarrow> ('a \<Rightarrow> exn + 'b) \<Rightarrow> exn + 'b" where
  "exn_bind m f = (case m of Inl e \<Rightarrow> Inl e | Inr v \<Rightarrow> f v)"

text \<open>\<open>obj[key]\<close> with a string key: \<open>KeyError\<close> on a dict without the key, \<open>TypeError\<close> on
  every other value.\<close>

fun getitem :: "json \<Rightarrow> string \<Rightarrow> exn + json" where
  "getitem (JObj d) key = (case map_of d key of Some v \<Rightarrow> Inr v | None \<Rightarrow> Inl KeyError)"
| "getitem _ key = Inl TypeError"

text \<open>\<open>obj[i]\<close> with an integer \<open>i \<ge> 0\<close>: a list element, a one-character string,
  \<open>IndexError\<close> out of range, \<open>KeyError\<close> on a dict (its keys are strings), \<open>TypeError\<close>
  otherwise.\<close>

fun getindex :: "json \<Rightarrow> nat \<Rightarrow> exn + json" where
  "getindex (JArr xs) i = (if i < length xs then Inr (xs ! i) else Inl IndexError)"
| "getindex (JStr s) i = (if i < length s then Inr (JStr [s ! i]) else Inl IndexError)"
| "getindex (JObj d) i = Inl KeyError"
| "getindex _ i = Inl TypeError"

text \<open>\<open>obj.items()\<close> (and \<open>obj.keys()\<close>): \<open>AttributeError\<close> unless \<open>obj\<close> is a dict.\<close>

fun dict_items :: "json \<Rightarrow> exn + (string \<times> json) list" where
  "dict_items (JObj d) = Inr d"
| "dict_items _ = Inl AttributeError"

text \<open>\<open>obj.copy()\<close>: dicts and lists have it.\<close>

fun py_copy :: "json \<Rightarrow> exn + json" where
  "py_copy (JObj d) = Inr (JObj d)"
| "py_copy (JArr xs) = Inr (JArr xs)"
| "py_copy _ = Inl AttributeError"

fun is_dict :: "json \<Rightarrow> bool" where
  "is_dict (JObj d) = True"
| "is_dict _ = False"

text \<open>\<open>len(obj)\<close>.\<close>

fun py_len :: "json \<Rightarrow> exn + nat" where
  "py_len (JArr xs) = Inr (length xs)"
| "py_len (JStr s) = Inr (length s)"
| "py_len (JObj d) = Inr (length d)"
| "py_len _ = Inl TypeError"

text \<open>
  Numbers: an \<open>int\<close> or a \<open>float\<close>; a \<open>bool\<close> counts as the \<open>int\<close> 0 or 1. \<open>+\<close> gives an
  \<open>int\<close> for two \<open>int\<close>s and a \<open>float\<close> otherwise; on anything that is no number it raises
  \<open>TypeError\<close>.
\<close>

datatype pynum = PyInt int | PyFloat rat

fun num_of :: "json \<Rightarrow> exn + pynum" where
  "num_of (JInt i) = Inr (PyInt i)"
| "num_of (JFloat r) = Inr (PyFloat r)"
| "num_of (JBool b) = Inr (PyInt (if b then 1 else 0))"
| "num_of _ = Inl TypeError"

fun rat_of_pynum :: "pynum \<Rightarrow> rat" where
  "rat_of_pynum (PyInt i) = of_int i"
| "rat_of_pynum (PyFloat r) = r"

fun py_add :: "pynum \<Rightarrow> pynum \<Rightarrow> pynum" where
  "py_add (PyInt a) (PyInt b) = PyInt (a + b)"
| "py_add a b = PyFloat (rat_of_pynum a + rat_of_pynum b)"

text \<open>\<open>sum(obj)\<close>: the elements of a list are added to 0 from left to right; a dict or a
  string is iterable too, but its elements (strings) cannot be added to 0.\<close>

fun sum_loop :: "json list \<Rightarrow> pynum \<Rightarrow> exn + pynum" where
  "sum_loop [] acc = Inr acc"
| "sum_loop (x # xs) acc = exn_bind (num_of x) (\<lambda>n. sum_loop xs (py_add acc n))"

fun py_sum :: "json \<Rightarrow> exn + pynum" where
  "py_sum (JArr xs) = sum_loop xs (PyInt 0)"
| "py_sum (JObj d) = (if d = [] then Inr (PyInt 0) else Inl TypeError)"
| "py_sum (JStr s) = (if s = [] then Inr (PyInt 0) else Inl TypeError)"
| "py_sum _ = Inl TypeError"

text \<open>\<open>"%i" % n\<close> for \<open>n \<ge> 0\<close>: the decimal digits.\<close>

function string_of_nat :: "nat \<Rightarrow> string" where
  "string_of_nat n =
     (if n < 10 then [''0123456789'' ! n]
      else string_of_nat (n div 10) @ [''0123456789'' ! (n mod 10)])"
  by pat_completeness auto
termination
  by (relation "measure id") auto

declare string_of_nat.simps [simp del]

definition endswith :: "string \<Rightarrow> string list \<Rightarrow> bool" where
  "endswith s sufs = list_ex (\<lambda>suf. suffix suf s) sufs"

definition startswith :: "string \<Rightarrow> string list \<Rightarrow> bool" where
  "startswith s pres = list_ex (\<lambda>pre. prefix pre s) pres"

subsection \<open>Data points\<close>

record PowerOceanEndPoint =
  internal_unique_id :: string
  serial :: string
  name :: string
  friendly_name :: string
  value' :: json
  unit :: "string option"
  description :: string
  icon :: "string option"

type_synonym sensor_dict = "(string \<times> PowerOceanEndPoint) list"

definition get_unit :: "string \<Rightarrow> string option" where
  "get_unit key =
     (if endswith key [''pwr'', ''Pwr'', ''Power''] then Some ''W''
      else if endswith key [''amp'', ''Amp''] then Some ''A''
      else if endswith key [''soc'', ''Soc'', ''soh'', ''Soh''] then Some ''%''
      else if endswith key [''vol'', ''Vol''] then Some ''V''
      else if endswith key [''Watth'', ''Energy''] then Some ''Wh''
      else if str_in ''Generation'' key then Some ''kWh''
      else if startswith key [''bpTemp''] then Some [CHR 0xB0, CHR ''C'']
      else None)"

text \<open>The source tests the keys one after the other; they exclude each other.\<close>

definition get_description :: "string \<Rightarrow> string" where
  "get_description key =
     (if key = ''sysLoadPwr'' then ''Hausnetz''
      else if key = ''sysGridPwr'' then ''Stromnetz''
      else if key = ''mpptPwr'' then ''Solarertrag''
      else if key = ''bpPwr'' then ''Batterieleistung''
      else if key = ''bpSoc'' then ''Ladezustand der Batterie''
      else if key = ''online'' then ''Online''
      else if key = ''systemName'' then ''System Name''
      else if key = ''createTime'' then ''Installations Datum''
      else if key = ''bpVol'' then ''Batteriespannung''
      else if key = ''bpAmp'' then ''Batteriestrom''
      else if key = ''bpCycles'' then ''Ladezyklen''
      else if key = ''bpTemp'' then ''Temperatur der Batteriezellen''
      else key)"

text \<open>
  \<open>__get_sens_select\<close> reads \<open>datapoints.json\<close>, which is not part of the sources: its
  content is the parameter \<open>config\<close>, a dict from report names to lists of field names.
  A report it does not name raises \<open>KeyError\<close>.
\<close>

definition get_sens_select :: "(string \<times> string list) list \<Rightarrow> string \<Rightarrow> exn + string list" where
  "get_sens_select config report =
     (case map_of config report of Some sens_select \<Rightarrow> Inr sens_select | None \<Rightarrow> Inl KeyError)"

text \<open>\<open>response["data"]["quota"][report]\<close>.\<close>

definition quota_report :: "json \<Rightarrow> string \<Rightarrow> exn + json" where
  "quota_report response report =
     exn_bind (getitem response ''data'') (\<lambda>data.
     exn_bind (getitem data ''quota'') (\<lambda>quota.
     getitem quota report))"

subsection \<open>\<open>__get_sensors_data\<close>\<close>

definition data_icon :: "string \<Rightarrow> string option" where
  "data_icon key =
     (if key = ''mpptPwr'' then Some ''mdi:solar-power''
      else if key = ''online'' then Some ''mdi:cloud-check''
      else if key = ''sysGridPwr'' then Some ''mdi:transmission-tower-import''
      else if key = ''sysLoadPwr'' then Some ''mdi:home-import-outline''
      else None)"

fun sensors_data_loop ::
  "string \<Rightarrow> string list \<Rightarrow> (string \<times> json) list \<Rightarrow> sensor_dict \<Rightarrow> sensor_dict" where
  "sensors_data_loop sn sens_select [] sensors = sensors"
| "sensors_data_loop sn sens_select ((key, v) # d) sensors =
     sensors_data_loop sn sens_select d
       (if key \<in> set sens_select \<and> \<not> is_dict v
        then AList.update (sn @ ''_'' @ key)
               \<lparr>internal_unique_id = sn @ ''_'' @ key, serial = sn, name = sn @ ''_'' @ key,
                friendly_name = key, value' = v, unit = get_unit key,
                description = get_description key, icon = data_icon key\<rparr> sensors
        else sensors)"

definition get_sensors_data ::
  "(string \<times> string list) list \<Rightarrow> string \<Rightarrow> json \<Rightarrow> exn + sensor_dict" where
  "get_sensors_data config sn response =
     exn_bind (getitem response ''data'') (\<lambda>data.
     exn_bind (py_copy data) (\<lambda>d.
     exn_bind (get_sens_select config ''data'') (\<lambda>sens_select.
     exn_bind (dict_items d) (\<lambda>d_items.
     Inr (sensors_data_loop sn sens_select d_items [])))))"

subsection \<open>\<open>__get_sensors_energy_stream\<close>\<close>

fun energy_stream_loop ::
  "string \<Rightarrow> string list \<Rightarrow> (string \<times> json) list \<Rightarrow> sensor_dict \<Rightarrow> sensor_dict" where
  "energy_stream_loop sn sens_select [] data = data"
| "energy_stream_loop sn sens_select ((key, v) # d) data =
     energy_stream_loop sn sens_select d
       (if key \<in> set sens_select
        then AList.update (sn @ ''_JTS1_ENERGY_STREAM_REPORT_'' @ key)
               \<lparr>internal_unique_id = sn @ ''_JTS1_ENERGY_STREAM_REPORT_'' @ key, serial = sn,
                name = sn @ ''_'' @ key, friendly_name = key, value' = v, unit = get_unit key,
                description = get_description key,
                icon = (if startswith key [''pv1'', ''pv2''] then Some ''mdi:solar-power''
                        else None)\<rparr> data
        else data)"

definition get_sensors_energy_stream ::
  "(string \<times> string list) list \<Rightarrow> string \<Rightarrow> json \<Rightarrow> sensor_dict \<Rightarrow> exn + sensor_dict" where
  "get_sensors_energy_stream config sn response sensors =
     exn_bind (quota_report response ''JTS1_ENERGY_STREAM_REPORT'') (\<lambda>d.
     exn_bind (get_sens_select config ''JTS1_ENERGY_STREAM_REPORT'') (\<lambda>sens_select.
     exn_bind (dict_items d) (\<lambda>d_items.
     Inr (dict_update sensors (energy_stream_loop sn sens_select d_items [])))))"

subsection \<open>\<open>__get_sensors_ems_change\<close>\<close>

text \<open>
  \<open>re.compile("mppt.*Code").match(key)\<close>: \<open>match\<close> anchors the pattern at the start of
  the key, \<open>.\<close> is any character but a newline, and what follows \<open>Code\<close> is free.
  \<open>dotstar_then pat s\<close> matches \<open>.*pat\<close> at the start of \<open>s\<close>.
\<close>

fun dotstar_then :: "string \<Rightarrow> string \<Rightarrow> bool" where
  "dotstar_then pat [] = prefix pat []"
| "dotstar_then pat (c # s) = (prefix pat (c # s) \<or> (c \<noteq> CHR 0x0A \<and> dotstar_then pat s))"

definition re_match_mppt_Code :: "string \<Rightarrow> bool" where
  "re_match_mppt_Code key = (prefix ''mppt'' key \<and> dotstar_then ''Code'' (drop 4 key))"

text \<open>The data point of one field of the report, with its key in \<open>data\<close>.\<close>

definition ems_change_point :: "string \<Rightarrow> string \<times> json \<Rightarrow> string \<times> PowerOceanEndPoint" where
  "ems_change_point sn field =
     (case field of (key, v) \<Rightarrow>
        (sn @ ''_JTS1_EMS_CHANGE_REPORT_'' @ key,
         \<lparr>internal_unique_id = sn @ ''_JTS1_EMS_CHANGE_REPORT_'' @ key, serial = sn,
          name = sn @ ''_'' @ key, friendly_name = key, value' = v, unit = get_unit key,
          description = get_description key, icon = None\<rparr>))"

fun ems_change_loop ::
  "string \<Rightarrow> string list \<Rightarrow> (string \<times> json) list \<Rightarrow> sensor_dict \<Rightarrow> sensor_dict" where
  "ems_change_loop sn sens_select [] data = data"
| "ems_change_loop sn sens_select ((key, v) # d) data =
     ems_change_loop sn sens_select d
       (if key \<in> set sens_select
        then AList.update (fst (ems_change_point sn (key, v))) (snd (ems_change_point sn (key, v))) data
        else data)"

definition get_sensors_ems_change ::
  "(string \<times> string list) list \<Rightarrow> string \<Rightarrow> json \<Rightarrow> sensor_dict \<Rightarrow> exn + sensor_dict" where
  "get_sensors_ems_change config sn response sensors =
     exn_bind (quota_report response ''JTS1_EMS_CHANGE_REPORT'') (\<lambda>d.
     exn_bind (get_sens_select config ''JTS1_EMS_CHANGE_REPORT'') (\<lambda>sens_select.
     exn_bind (dict_items d) (\<lambda>d_items.
     let wfc = filter re_match_mppt_Code (map fst d_items)
     in Inr (dict_update sensors (ems_change_loop sn (sens_select @ wfc) d_items [])))))"

subsection \<open>\<open>__get_sensors_battery\<close>\<close>

text \<open>
  \<open>json_loads\<close> (Home Assistant's) is the parameter of the same name, on strings; it
  rejects a value that is no string.
\<close>

fun loads_value :: "(string \<Rightarrow> exn + json) \<Rightarrow> json \<Rightarrow> exn + json" where
  "loads_value json_loads (JStr s) = json_loads s"
| "loads_value json_loads _ = Inl JSONDecodeError"

text \<open>The inner loop over one battery's fields; \<open>nm\<close> is the source's \<open>name\<close>, the pack
  prefix.\<close>

definition battery_point ::
  "string \<Rightarrow> string \<Rightarrow> string \<Rightarrow> string \<times> json \<Rightarrow> string \<times> PowerOceanEndPoint" where
  "battery_point sn bat nm field =
     (case field of (key, v) \<Rightarrow>
        (sn @ ''_JTS1_BP_STA_REPORT_'' @ bat @ ''_'' @ key,
         \<lparr>internal_unique_id = sn @ ''_JTS1_BP_STA_REPORT_'' @ bat @ ''_'' @ key,
          serial = sn, name = sn @ ''_'' @ nm @ key, friendly_name = nm @ key,
          value' = v, unit = get_unit key, description = nm @ get_description key,
          icon = (if key = ''bpAmp'' then Some ''mdi:current-dc'' else None)\<rparr>))"

fun battery_fields_loop ::
  "string \<Rightarrow> string list \<Rightarrow> string \<Rightarrow> string \<Rightarrow> (string \<times> json) list \<Rightarrow> sensor_dict
     \<Rightarrow> sensor_dict" where
  "battery_fields_loop sn bat_sens_select bat nm [] data = data"
| "battery_fields_loop sn bat_sens_select bat nm ((key, v) # d_bat) data =
     battery_fields_loop sn bat_sens_select bat nm d_bat
       (if key \<in> set bat_sens_select
        then AList.update (fst (battery_point sn bat nm (key, v)))
               (snd (battery_point sn bat nm (key, v))) data
        else data)"

text \<open>The aggregated temperature point of a pack; \<open>v\<close> is the mean.\<close>

definition battery_mean_point ::
  "string \<Rightarrow> string \<Rightarrow> string \<Rightarrow> json \<Rightarrow> string \<times> PowerOceanEndPoint" where
  "battery_mean_point sn bat nm v =
     (sn @ ''_JTS1_BP_STA_REPORT_'' @ bat @ ''_'' @ ''bpTemp'',
      \<lparr>internal_unique_id = sn @ ''_JTS1_BP_STA_REPORT_'' @ bat @ ''_'' @ ''bpTemp'',
       serial = sn, name = sn @ ''_'' @ nm @ ''bpTemp'', friendly_name = nm @ ''bpTemp'',
       value' = v, unit = get_unit ''bpTemp'',
       description = nm @ get_description ''bpTemp'', icon = None\<rparr>)"

text \<open>\<open>sum(temp) / len(temp)\<close>: true division, a \<open>float\<close>; \<open>ZeroDivisionError\<close> for an
  empty array.\<close>

definition mean_temperature :: "json \<Rightarrow> exn + json" where
  "mean_temperature temp =
     exn_bind (py_sum temp) (\<lambda>total.
     exn_bind (py_len temp) (\<lambda>n.
     if n = 0 then Inl ZeroDivisionError else Inr (JFloat (rat_of_pynum total / of_nat n))))"

text \<open>The loop \<open>for ibat, bat in enumerate(batts)\<close>; \<open>d\<close> is the report.\<close>

fun battery_loop ::
  "(string \<Rightarrow> exn + json) \<Rightarrow> string \<Rightarrow> string list \<Rightarrow> json \<Rightarrow> nat \<Rightarrow> string list
     \<Rightarrow> sensor_dict \<Rightarrow> exn + sensor_dict" where
  "battery_loop json_loads sn bat_sens_select d ibat [] data = Inr data"
| "battery_loop json_loads sn bat_sens_select d ibat (bat # batts) data =
     (let nm = ''bpack'' @ string_of_nat (ibat + 1) @ ''_'' in
      exn_bind (getitem d bat) (\<lambda>encoded.
      exn_bind (loads_value json_loads encoded) (\<lambda>d_bat.
      exn_bind (dict_items d_bat) (\<lambda>d_bat_items.
      let data1 = battery_fields_loop sn bat_sens_select bat nm d_bat_items data in
      exn_bind (getitem d_bat ''bpTemp'') (\<lambda>temp.
      exn_bind (mean_temperature temp) (\<lambda>v.
      battery_loop json_loads sn bat_sens_select d (ibat + 1) batts
        (AList.update (fst (battery_mean_point sn bat nm v))
           (snd (battery_mean_point sn bat nm v)) data1)))))))"

definition get_sensors_battery ::
  "(string \<times> string list) list \<Rightarrow> (string \<Rightarrow> exn + json) \<Rightarrow> string \<Rightarrow> json \<Rightarrow> sensor_dict
     \<Rightarrow> exn + sensor_dict" where
  "get_sensors_battery config json_loads sn response sensors =
     exn_bind (quota_report response ''JTS1_BP_STA_REPORT'') (\<lambda>d.
     exn_bind (dict_items d) (\<lambda>d_items.
     let batts = filter (\<lambda>s. length s > 12) (map fst d_items) in
     exn_bind (get_sens_select config ''JTS1_BP_STA_REPORT'') (\<lambda>bat_sens_select.
     exn_bind (battery_loop json_loads sn bat_sens_select d 0 batts []) (\<lambda>data.
     Inr (dict_update sensors data)))))"

subsection \<open>\<open>__get_sensors_ems_heartbeat\<close>\<close>

text \<open>
  The loops of this method share the variables \<open>key\<close> and \<open>data\<close>; the total-power point
  takes its unit from the \<open>key\<close> the last loop step left. Each loop returns both.
\<close>

fun heartbeat_loop ::
  "string \<Rightarrow> string list \<Rightarrow> (string \<times> json) list \<Rightarrow> sensor_dict \<times> string
     \<Rightarrow> sensor_dict \<times> string" where
  "heartbeat_loop sn sens_select [] (data, last_key) = (data, last_key)"
| "heartbeat_loop sn sens_select ((key, v) # d) (data, last_key) =
     heartbeat_loop sn sens_select d
       (if key \<in> set sens_select
        then AList.update (sn @ ''_JTS1_EMS_HEARTBEAT_'' @ key)
               \<lparr>internal_unique_id = sn @ ''_JTS1_EMS_HEARTBEAT_'' @ key, serial = sn,
                name = sn @ ''_'' @ key, friendly_name = key, value' = v, unit = get_unit key,
                description = get_description key, icon = None\<rparr> data
        else data, key)"

fun phase_fields_loop ::
  "string \<Rightarrow> string \<Rightarrow> (string \<times> json) list \<Rightarrow> sensor_dict \<times> string \<Rightarrow> sensor_dict \<times> string" where
  "phase_fields_loop sn phase [] (data, last_key) = (data, last_key)"
| "phase_fields_loop sn phase ((key, v) # d_phase) (data, last_key) =
     phase_fields_loop sn phase d_phase
       (AList.update (sn @ ''_JTS1_EMS_HEARTBEAT_'' @ phase @ ''_'' @ key)
          \<lparr>internal_unique_id = sn @ ''_JTS1_EMS_HEARTBEAT_'' @ phase @ ''_'' @ key, serial = sn,
           name = sn @ ''_'' @ phase @ ''_'' @ key, friendly_name = phase @ ''_'' @ key,
           value' = v, unit = get_unit key, description = get_description key,
           icon = None\<rparr> data, key)"

fun phases_loop ::
  "string \<Rightarrow> json \<Rightarrow> string list \<Rightarrow> sensor_dict \<times> string \<Rightarrow> exn + sensor_dict \<times> string" where
  "phases_loop sn d [] st = Inr st"
| "phases_loop sn d (phase # phases) st =
     exn_bind (getitem d phase) (\<lambda>d_phase.
     exn_bind (dict_items d_phase) (\<lambda>d_phase_items.
     phases_loop sn d phases (phase_fields_loop sn phase d_phase_items st)))"

text \<open>The data point of one field of one PV string. The source sets the icon for a
  key ending in \<open>amp\<close> and then for one ending in \<open>pwr\<close>; no key ends in both.\<close>

definition pv_point :: "string \<Rightarrow> string \<Rightarrow> string \<times> json \<Rightarrow> string \<times> PowerOceanEndPoint" where
  "pv_point sn mpptpv field =
     (case field of (key, v) \<Rightarrow>
        (sn @ ''_JTS1_EMS_HEARTBEAT_mpptHeartBeat_'' @ mpptpv @ ''_'' @ key,
         \<lparr>internal_unique_id =
            sn @ ''_JTS1_EMS_HEARTBEAT_mpptHeartBeat_'' @ mpptpv @ ''_'' @ key,
          serial = sn, name = sn @ ''_'' @ mpptpv @ ''_'' @ key,
          friendly_name = mpptpv @ ''_'' @ key, value' = v, unit = get_unit key,
          description = get_description key,
          icon = (if endswith key [''pwr''] then Some ''mdi:solar-power''
                  else if endswith key [''amp''] then Some ''mdi:current-dc''
                  else None)\<rparr>))"

text \<open>The synthetic total-power point; \<open>key\<close> is what the loops left in the variable.\<close>

definition pv_total_point :: "string \<Rightarrow> string \<Rightarrow> rat \<Rightarrow> string \<times> PowerOceanEndPoint" where
  "pv_total_point sn key mpptPv_sum =
     (sn @ ''_JTS1_EMS_HEARTBEAT_mpptHeartBeat_'' @ ''mpptPv_pwrTotal'',
      \<lparr>internal_unique_id = sn @ ''_JTS1_EMS_HEARTBEAT_mpptHeartBeat_'' @ ''mpptPv_pwrTotal'',
       serial = sn, name = sn @ ''_'' @ ''mpptPv_pwrTotal'',
       friendly_name = ''mpptPv_pwrTotal'', value' = JFloat mpptPv_sum,
       unit = get_unit key, description = ''Solarertrag aller Strings'',
       icon = Some ''mdi:solar-power''\<rparr>)"

fun pv_fields_loop ::
  "string \<Rightarrow> string \<Rightarrow> (string \<times> json) list \<Rightarrow> sensor_dict \<times> string \<times> rat
     \<Rightarrow> exn + sensor_dict \<times> string \<times> rat" where
  "pv_fields_loop sn mpptpv [] st = Inr st"
| "pv_fields_loop sn mpptpv ((key, v) # d_pv) (data, last_key, mpptPv_sum) =
     (let data1 = AList.update (fst (pv_point sn mpptpv (key, v)))
                    (snd (pv_point sn mpptpv (key, v))) data
      in if key = ''pwr''
         then exn_bind (num_of v) (\<lambda>n.
                pv_fields_loop sn mpptpv d_pv (data1, key, mpptPv_sum + rat_of_pynum n))
         else pv_fields_loop sn mpptpv d_pv (data1, key, mpptPv_sum))"

text \<open>\<open>pv_fields_loop\<close> above is the loop over the fields of one PV string; \<open>mpptPv_sum\<close>
  is a \<open>float\<close> from the start (\<open>0.0\<close>).
  The loop \<open>for i, mpptpv in enumerate(mpptpvs)\<close>, where \<open>mpptpvs\<close> holds the names
  \<open>mpptPv1\<close>, \<open>mpptPv2\<close>, ...; \<open>pvs\<close> is \<open>d["mpptHeartBeat"][0]["mpptPv"]\<close>.\<close>

fun pv_strings_loop ::
  "string \<Rightarrow> json \<Rightarrow> nat \<Rightarrow> string list \<Rightarrow> sensor_dict \<times> string \<times> rat
     \<Rightarrow> exn + sensor_dict \<times> string \<times> rat" where
  "pv_strings_loop sn pvs i [] st = Inr st"
| "pv_strings_loop sn pvs i (mpptpv # mpptpvs) st =
     exn_bind (getindex pvs i) (\<lambda>d_pv.
     exn_bind (dict_items d_pv) (\<lambda>d_pv_items.
     exn_bind (pv_fields_loop sn mpptpv d_pv_items st) (\<lambda>st1.
     pv_strings_loop sn pvs (i + 1) mpptpvs st1)))"

definition mppt_heartbeat ::
  "string \<Rightarrow> json \<Rightarrow> sensor_dict \<times> string \<Rightarrow> exn + sensor_dict" where
  "mppt_heartbeat sn d st =
     exn_bind (getitem d ''mpptHeartBeat'') (\<lambda>hb.
     exn_bind (getindex hb 0) (\<lambda>hb0.
     exn_bind (getitem hb0 ''mpptPv'') (\<lambda>pvs.
     exn_bind (py_len pvs) (\<lambda>n_strings.
     let mpptpvs = map (\<lambda>i. ''mpptPv'' @ string_of_nat i) [1..<n_strings + 1] in
     exn_bind (pv_strings_loop sn pvs 0 mpptpvs (fst st, snd st, 0)) (\<lambda>(data, key, mpptPv_sum).
     Inr (AList.update (fst (pv_total_point sn key mpptPv_sum))
            (snd (pv_total_point sn key mpptPv_sum)) data))))))"

text \<open>
  In the first loop \<open>key\<close> gets the keys of \<open>d\<close>; before it \<open>key\<close> is unbound, which the
  model writes as the empty string (a total-power point is only built when \<open>d\<close> has the
  key \<open>mpptHeartBeat\<close>, so the loop has run by then).
\<close>

definition get_sensors_ems_heartbeat ::
  "(string \<times> string list) list \<Rightarrow> string \<Rightarrow> json \<Rightarrow> sensor_dict \<Rightarrow> exn + sensor_dict" where
  "get_sensors_ems_heartbeat config sn response sensors =
     exn_bind (quota_report response ''JTS1_EMS_HEARTBEAT'') (\<lambda>d.
     exn_bind (get_sens_select config ''JTS1_EMS_HEARTBEAT'') (\<lambda>sens_select.
     exn_bind (dict_items d) (\<lambda>d_items.
     let st = heartbeat_loop sn sens_select d_items ([], []) in
     exn_bind (if ''pcsBPhase'' \<in> fst ` set d_items
               then phases_loop sn d [''pcsAPhase'', ''pcsBPhase'', ''pcsCPhase''] st
               else Inr st) (\<lambda>st1.
     exn_bind (if ''mpptHeartBeat'' \<in> fst ` set d_items
               then mppt_heartbeat sn d st1
               else Inr (fst st1)) (\<lambda>data.
     Inr (dict_update sensors data))))))"

subsection \<open>\<open>_get_sensors\<close>\<close>

definition get_sensors ::
  "(string \<times> string list) list \<Rightarrow> (string \<Rightarrow> exn + json) \<Rightarrow> string \<Rightarrow> json \<Rightarrow> exn + sensor_dict" where
  "get_sensors config json_loads sn response =
     exn_bind (get_sensors_data config sn response) (\<lambda>sensors.
     exn_bind (get_sensors_energy_stream config sn response sensors) (\<lambda>sensors.
     exn_bind (get_sensors_ems_change config sn response sensors) (\<lambda>sensors.
     exn_bind (get_sensors_battery config json_loads sn response sensors) (\<lambda>sensors.
     get_sensors_ems_heartbeat config sn response sensors))))"

subsection \<open>Notions the claims use\<close>

text \<open>The power of one PV string: the number under its key \<open>pwr\<close>, as a rational; a
  string without the key adds nothing to the total.\<close>

definition pv_power :: "(string \<times> json) list \<Rightarrow> rat" where
  "pv_power d_pv =
     (case map_of d_pv ''pwr'' of
        Some v \<Rightarrow> (case num_of v of Inr n \<Rightarrow> rat_of_pynum n | Inl e \<Rightarrow> 0)
      | None \<Rightarrow> 0)"

text \<open>The data points of the PV strings \<open>pvs\<close>, numbered from \<open>i\<close>, one per string per
  field, in the order of the strings and of their fields.\<close>

fun pv_points :: "string \<Rightarrow> nat \<Rightarrow> (string \<times> json) list list \<Rightarrow> sensor_dict" where
  "pv_points sn i [] = []"
| "pv_points sn i (d_pv # pvs) =
     map (pv_point sn (''mpptPv'' @ string_of_nat i)) d_pv @ pv_points sn (i + 1) pvs"

text \<open>The arithmetic mean of a pack's per-cell temperatures, as a rational.\<close>

definition rat_of_json :: "json \<Rightarrow> rat" where
  "rat_of_json v = (case num_of v of Inr n \<Rightarrow> rat_of_pynum n | Inl e \<Rightarrow> 0)"

definition cell_mean :: "json list \<Rightarrow> rat" where
  "cell_mean temps = sum_list (map rat_of_json temps) / of_nat (length temps)"

definition pack_mean :: "(string \<times> json) list \<Rightarrow> json" where
  "pack_mean d_bat =
     (case map_of d_bat ''bpTemp'' of
        Some (JArr temps) \<Rightarrow> JFloat (cell_mean temps)
      | _ \<Rightarrow> JNull)"

text \<open>
  The data points of the battery packs \<open>packs\<close> (each the record's key and its parsed
  sub-document), numbered from \<open>i\<close>: for each pack one per allow-listed field, with
  the prefix \<open>bpack<i>_\<close> in description and name, then the pack's aggregated temperature
  point.
\<close>

fun battery_points ::
  "string \<Rightarrow> string list \<Rightarrow> nat \<Rightarrow> (string \<times> (string \<times> json) list) list \<Rightarrow> sensor_dict" where
  "battery_points sn bat_sens_select i [] = []"
| "battery_points sn bat_sens_select i ((bat, d_bat) # packs) =
     map (battery_point sn bat (''bpack'' @ string_of_nat i @ ''_''))
       (filter (\<lambda>(key, v). key \<in> set bat_sens_select) d_bat)
     @ [battery_mean_point sn bat (''bpack'' @ string_of_nat i @ ''_'') (pack_mean d_bat)]
     @ battery_points sn bat_sens_select (i + 1) packs"

section \<open>Properties of the device state store\<close>

lemma merge_state_other:
  "key \<notin> fst ` set new_data \<Longrightarrow> map_of (merge_state current new_data) key = map_of current key"
proof (induction new_data arbitrary: current)
  case Nil
  then show ?case by simp
next
  case (Cons kv new_data)
  obtain k v where kv: "kv = (k, v)" by (cases kv)
  from Cons.prems kv have ne: "k \<noteq> key" and rest: "key \<notin> fst ` set new_data" by auto
  show ?case
    using Cons.IH [OF rest] ne
    by (simp add: kv update_conv' split: json.splits option.splits)
qed

lemma merge_state_key:
  assumes "distinct (map fst new_data)"
  shows "map_of (merge_state current new_data) key =
     (case map_of new_data key of
        None \<Rightarrow> map_of current key
      | Some (JObj new_sub) \<Rightarrow>
          (case map_of current key of
             Some (JObj cur_sub) \<Rightarrow> Some (JObj (merge_state cur_sub new_sub))
           | _ \<Rightarrow> Some (JObj new_sub))
      | Some v \<Rightarrow> Some v)"
  using assms
proof (induction new_data arbitrary: current)
  case Nil
  then show ?case by simp
next
  case (Cons kv new_data)
  obtain k v where kv: "kv = (k, v)" by (cases kv)
  from Cons.prems kv have fresh: "k \<notin> fst ` set new_data" and dist: "distinct (map fst new_data)"
    by auto
  show ?case
  proof (cases "k = key")
    case True
    with fresh have "key \<notin> fst ` set new_data" by simp
    then show ?thesis
      using True
      by (simp add: kv merge_state_other update_conv' split: json.splits option.splits)
  next
    case False
    obtain v' where step: "merge_state current ((k, v) # new_data) =
        merge_state (AList.update k v' current) new_data"
      by (cases v; cases "map_of current k"; cases "the (map_of current k)") simp_all
    from False have eq: "map_of (AList.update k v' current) key = map_of current key"
      by (simp add: update_conv')
    from False have tl: "map_of ((k, v) # new_data) key = map_of new_data key"
      by simp
    show ?thesis
      using Cons.IH [OF dist, of "AList.update k v' current"]
      unfolding kv step eq tl .
  qed
qed

text \<open>
  C4. The state merge is a deep merge. For every key of the merged state: a key the
  update does not hold keeps its value; where the update and the current state both
  hold a nested mapping, the result holds the recursive merge of the two, in which
  every leaf key of the current mapping that the update's mapping does not name keeps
  its value; in every other case the update's value replaces the current one entirely,
  in particular a scalar over a mapping. The keys of a Python dict are distinct.
\<close>

theorem merge_state_deep:
  assumes "distinct (map fst new_data)"
  shows "map_of (merge_state current new_data) key =
       (case map_of new_data key of
          None \<Rightarrow> map_of current key
        | Some (JObj new_sub) \<Rightarrow>
            (case map_of current key of
               Some (JObj cur_sub) \<Rightarrow> Some (JObj (merge_state cur_sub new_sub))
             | _ \<Rightarrow> Some (JObj new_sub))
        | Some v \<Rightarrow> Some v) \<and>
     (\<forall>new_sub cur_sub leaf.
        map_of new_data key = Some (JObj new_sub) \<and> map_of current key = Some (JObj cur_sub) \<and>
        leaf \<notin> fst ` set new_sub \<longrightarrow>
        (\<exists>merged. map_of (merge_state current new_data) key = Some (JObj merged) \<and>
                  map_of merged leaf = map_of cur_sub leaf)) \<and>
     (\<forall>v cur_sub.
        map_of new_data key = Some v \<and> \<not> is_dict v \<and> map_of current key = Some (JObj cur_sub) \<longrightarrow>
        map_of (merge_state current new_data) key = Some v)"
proof (intro conjI)
  show key: "map_of (merge_state current new_data) key =
       (case map_of new_data key of
          None \<Rightarrow> map_of current key
        | Some (JObj new_sub) \<Rightarrow>
            (case map_of current key of
               Some (JObj cur_sub) \<Rightarrow> Some (JObj (merge_state cur_sub new_sub))
             | _ \<Rightarrow> Some (JObj new_sub))
        | Some v \<Rightarrow> Some v)"
    using assms by (rule merge_state_key)
  show "\<forall>new_sub cur_sub leaf.
        map_of new_data key = Some (JObj new_sub) \<and> map_of current key = Some (JObj cur_sub) \<and>
        leaf \<notin> fst ` set new_sub \<longrightarrow>
        (\<exists>merged. map_of (merge_state current new_data) key = Some (JObj merged) \<and>
                  map_of merged leaf = map_of cur_sub leaf)"
    by (simp add: key merge_state_other)
  show "\<forall>v cur_sub.
        map_of new_data key = Some v \<and> \<not> is_dict v \<and> map_of current key = Some (JObj cur_sub) \<longrightarrow>
        map_of (merge_state current new_data) key = Some v"
  proof (intro allI impI)
    fix v cur_sub
    assume "map_of new_data key = Some v \<and> \<not> is_dict v \<and> map_of current key = Some (JObj cur_sub)"
    then show "map_of (merge_state current new_data) key = Some v"
      by (cases v) (simp_all add: key)
  qed
qed

text \<open>
  An update that names the leaf \<open>y\<close> of the mapping under \<open>a\<close> and puts a scalar over the
  mapping under \<open>b\<close>: the leaf \<open>x\<close> survives, \<open>y\<close> is replaced, and \<open>b\<close> holds the scalar.
\<close>

theorem merge_state_deep_witness:
  "distinct (map fst [(''a'', JObj [(''y'', JInt 5)]), (''b'', JInt 7)]) \<and>
   map_of (merge_state
             [(''a'', JObj [(''x'', JInt 1), (''y'', JInt 2)]), (''b'', JObj [(''z'', JInt 3)]),
              (''c'', JInt 4)]
             [(''a'', JObj [(''y'', JInt 5)]), (''b'', JInt 7)]) ''a''
     = Some (JObj [(''x'', JInt 1), (''y'', JInt 5)]) \<and>
   merge_state
     [(''a'', JObj [(''x'', JInt 1), (''y'', JInt 2)]), (''b'', JObj [(''z'', JInt 3)]),
      (''c'', JInt 4)]
     [(''a'', JObj [(''y'', JInt 5)]), (''b'', JInt 7)]
     = [(''a'', JObj [(''x'', JInt 1), (''y'', JInt 5)]), (''b'', JInt 7), (''c'', JInt 4)]"
proof -
  have d: "distinct (map fst [(''a'', JObj [(''y'', JInt 5)]), (''b'', JInt 7)])"
    by simp
  show ?thesis
    using d merge_state_deep [OF d,
        of "[(''a'', JObj [(''x'', JInt 1), (''y'', JInt 2)]), (''b'', JObj [(''z'', JInt 3)]),
            (''c'', JInt 4)]" "''a''"]
    by simp
qed

section \<open>Properties of the payload decoder\<close>

subsection \<open>Bytes and bits\<close>

lemma unat_and_0x7f: "unat ((b::byte) AND 0x7f) = unat b mod 128"
proof -
  have "(0x7f::byte) = mask 7" by (simp add: mask_eq_exp_minus_1)
  then have "b AND 0x7f = take_bit 7 b" by (simp add: take_bit_eq_mask)
  then show ?thesis by (simp add: unsigned_take_bit_eq take_bit_eq_mod unat_mod)
qed

lemma unat_and_0x07: "unat ((b::byte) AND 0x07) = unat b mod 8"
proof -
  have "(0x07::byte) = mask 3" by (simp add: mask_eq_exp_minus_1)
  then have "b AND 0x07 = take_bit 3 b" by (simp add: take_bit_eq_mask)
  then show ?thesis by (simp add: unsigned_take_bit_eq take_bit_eq_mod unat_mod)
qed

lemma and_0x80_iff: "((b::byte) AND 0x80 = 0) \<longleftrightarrow> unat b < 128"
proof -
  have lt: "unat b < 256" using unsigned_less [of b] by simp
  have "(b AND 0x80 = 0) \<longleftrightarrow> \<not> bit b 7"
    using and_exp_eq_0_iff_not_bit [of b 7] by simp
  also have "bit b 7 \<longleftrightarrow> bit (unat b) 7"
    by (simp add: bit_unsigned_iff)
  also have "bit (unat b) 7 \<longleftrightarrow> odd (unat b div 128)"
    by (simp add: bit_iff_odd)
  also have "odd (unat b div 128) \<longleftrightarrow> \<not> unat b < 128"
  proof (cases "unat b < 128")
    case True then show ?thesis by simp
  next
    case False
    with lt have "unat b div 128 = 1" by simp
    with False show ?thesis by simp
  qed
  finally show ?thesis by simp
qed

lemma low7_or_rest: "(n mod 128) OR push_bit 7 (n div 128) = (n::nat)"
proof -
  have "take_bit 7 n OR push_bit 7 (drop_bit 7 n) = n"
  proof (rule bit_eqI)
    fix k
    show "bit (take_bit 7 n OR push_bit 7 (drop_bit 7 n)) k = bit n k"
      by (cases "k < 7") (simp_all add: bit_simps)
  qed
  then show ?thesis by (simp add: take_bit_eq_mod drop_bit_eq_div)
qed

lemma unat_byte_of_nat: "n < 256 \<Longrightarrow> unat (of_nat n :: byte) = n"
  by (rule of_nat_inverse [OF refl]) simp

lemma unat_tag:
  assumes "fid < 32" "wt < 8"
  shows "unat (of_nat (fid * 8 + wt) :: byte) = fid * 8 + wt"
  using assms by (intro unat_byte_of_nat) simp

lemma tag_field_id:
  assumes a: "fid < 32" "wt < 8"
  shows "unat (drop_bit 3 (of_nat (fid * 8 + wt) :: byte)) = fid"
proof -
  have "unat (drop_bit 3 (of_nat (fid * 8 + wt) :: byte)) = drop_bit 3 (unat (of_nat (fid * 8 + wt) :: byte))"
    by (rule unat_drop_bit_eq)
  also have "\<dots> = drop_bit 3 (fid * 8 + wt)"
    by (simp only: unat_tag [OF a])
  also have "\<dots> = fid"
    using a by (simp add: drop_bit_eq_div)
  finally show ?thesis .
qed

lemma tag_wire_type: "fid < 32 \<Longrightarrow> wt < 8 \<Longrightarrow> unat ((of_nat (fid * 8 + wt) :: byte) AND 0x07) = wt"
  by (simp only: unat_and_0x07 unat_tag) simp

lemma push_low7_or_rest:
  "push_bit shift (n mod 128) OR push_bit (shift + 7) (n div 128) = push_bit shift (n::nat)"
proof -
  have "push_bit (shift + 7) (n div 128) = push_bit shift (push_bit 7 (n div 128))"
    by (simp add: push_bit_add add.commute)
  then have "push_bit shift (n mod 128) OR push_bit (shift + 7) (n div 128)
      = push_bit shift ((n mod 128) OR push_bit 7 (n div 128))"
    by (simp only: push_bit_or)
  then show ?thesis by (simp only: low7_or_rest)
qed

lemma decode_varint_loop_encode:
  "decode_varint_loop (encode_varint n @ rest) val shift offset
     = Inr (val OR push_bit shift n, offset + length (encode_varint n))"
proof (induction n arbitrary: val shift offset rule: encode_varint.induct)
  case (1 n)
  show ?case
  proof (cases "n < 128")
    case True
    then have u: "unat (of_nat n :: byte) = n" by (simp add: unat_byte_of_nat)
    from True show ?thesis
      by (subst (1 2) encode_varint.simps) (simp add: and_0x80_iff unat_and_0x7f u)
  next
    case False
    have "unat (of_nat (n mod 128 + 128) :: byte) = n mod 128 + 128"
      by (rule unat_byte_of_nat) simp
    then have u: "unat (of_nat (n mod 128) + 128 :: byte) = n mod 128 + 128"
      by simp
    have "decode_varint_loop (encode_varint n @ rest) val shift offset
        = decode_varint_loop (encode_varint (n div 128) @ rest)
            (val OR push_bit shift (n mod 128)) (shift + 7) (offset + 1)"
      using False by (subst encode_varint.simps) (simp add: and_0x80_iff unat_and_0x7f u)
    also have "\<dots> = Inr ((val OR push_bit shift (n mod 128)) OR push_bit (shift + 7) (n div 128),
        offset + 1 + length (encode_varint (n div 128)))"
      by (rule "1.IH" [OF False])
    also have "(val OR push_bit shift (n mod 128)) OR push_bit (shift + 7) (n div 128)
        = val OR push_bit shift n"
      by (simp only: or.assoc push_low7_or_rest)
    also have "offset + 1 + length (encode_varint (n div 128)) = offset + length (encode_varint n)"
      using False by (subst (2) encode_varint.simps) simp
    finally show ?thesis .
  qed
qed

lemma decode_varint_encode:
  "decode_varint (encode_varint n @ rest) = Inr (n, length (encode_varint n))"
  by (simp add: decode_varint_def decode_varint_loop_encode)

lemma length_pack_le [simp]: "length (pack_le k v) = k"
  by (induction k arbitrary: v) simp_all

lemma le_nat_pack_le: "le_nat (pack_le k v) = v mod 256 ^ k"
proof (induction k arbitrary: v)
  case 0
  then show ?case by simp
next
  case (Suc k)
  have "unat (of_nat (v mod 256) :: byte) = v mod 256"
    by (rule unat_byte_of_nat) simp
  then show ?case
    by (simp add: Suc.IH mod_mult2_eq)
qed

lemma be_nat_pack_be: "be_nat (pack_be k v) = v mod 256 ^ k"
  by (simp add: be_nat_def pack_be_def le_nat_pack_le)


lemma slice_middle: "slice (pre @ t # a @ rest) (length pre + 1) (length pre + 1 + length a) = a"
  by (simp add: slice_def)

lemma slice_middle2:
  "slice (pre @ t # a @ b @ rest) (length pre + 1 + length a) (length pre + 1 + length a + length b) = b"
  by (simp add: slice_def)

lemma drop_tag: "drop (length pre + 1) (pre @ t # xs) = xs"
  by simp

lemma wire_type_lt8: "wire_type_of w < 8"
  by (cases w) simp_all

lemma encodable_field_id: "encodable (field_id, w) \<Longrightarrow> field_id < 32"
  by (cases w) simp_all

lemma parse_fields_field:
  assumes enc: "encodable (field_id, w)"
  shows "parse_fields (pre @ encode_field (field_id, w) @ rest) (length pre) vals
     = parse_fields (pre @ encode_field (field_id, w) @ rest)
         (length pre + length (encode_field (field_id, w)))
         (AList.update field_id (decoded_value w) vals)"
proof -
  let ?t = "of_nat (field_id * 8 + wire_type_of w) :: byte"
  from enc have f: "field_id < 32" by (rule encodable_field_id)
  have fid: "unat (drop_bit 3 ?t) = field_id"
    by (rule tag_field_id [OF f wire_type_lt8])
  have wt: "unat (?t AND 0x07) = wire_type_of w"
    by (rule tag_wire_type [OF f wire_type_lt8])
  have nth: "\<And>xs. (pre @ ?t # xs) ! length pre = ?t"
    by simp
  show ?thesis
  proof (cases w)
    case (Varint n)
    have "decode_varint (drop (length pre + 1) (pre @ ?t # encode_varint n @ rest))
        = Inr (n, length (encode_varint n))"
      by (simp only: drop_tag decode_varint_encode)
    then show ?thesis
      using fid wt unfolding Varint
      by (subst parse_fields.simps) (simp add: nth ac_simps del: of_nat_add of_nat_mult)
  next
    case (Fixed64 n)
    from enc Fixed64 have n: "n < 2 ^ 64" by simp
    have "slice (pre @ ?t # pack_le 8 n @ rest) (length pre + 1) (length pre + 1 + 8) = pack_le 8 n"
      using slice_middle [of pre ?t "pack_le 8 n" rest] by simp
    then have "unpack_le 8 (slice (pre @ ?t # pack_le 8 n @ rest) (length pre + 1) (length pre + 1 + 8))
        = Inr n"
      using n by (simp add: unpack_le_def le_nat_pack_le)
    then show ?thesis
      using fid wt unfolding Fixed64
      by (subst parse_fields.simps) (simp add: nth ac_simps del: of_nat_add of_nat_mult)
  next
    case (LengthDelimited bs)
    have dv: "decode_varint (drop (length pre + 1) (pre @ ?t # encode_varint (length bs) @ bs @ rest))
        = Inr (length bs, length (encode_varint (length bs)))"
      by (simp only: drop_tag decode_varint_encode)
    have sl: "slice (pre @ ?t # encode_varint (length bs) @ bs @ rest)
          (length pre + 1 + length (encode_varint (length bs)))
          (length pre + 1 + length (encode_varint (length bs)) + length bs) = bs"
      by (rule slice_middle2)
    show ?thesis
      using fid wt dv sl unfolding LengthDelimited
      by (subst parse_fields.simps) (simp add: nth ac_simps del: of_nat_add of_nat_mult)
  next
    case (Fixed32 n)
    from enc Fixed32 have n: "n < 2 ^ 32" by simp
    have "slice (pre @ ?t # pack_le 4 n @ rest) (length pre + 1) (length pre + 1 + 4) = pack_le 4 n"
      using slice_middle [of pre ?t "pack_le 4 n" rest] by simp
    then have "unpack_le 4 (slice (pre @ ?t # pack_le 4 n @ rest) (length pre + 1) (length pre + 1 + 4))
        = Inr n"
      using n by (simp add: unpack_le_def le_nat_pack_le)
    then show ?thesis
      using fid wt unfolding Fixed32
      by (subst parse_fields.simps) (simp add: nth ac_simps del: of_nat_add of_nat_mult)
  qed
qed


lemma parse_fields_encoded:
  "list_all encodable field_list \<Longrightarrow>
   parse_fields (pre @ concat (map encode_field field_list)) (length pre) vals
     = Inr (dict_update vals (map (\<lambda>(k, w). (k, decoded_value w)) field_list))"
proof (induction field_list arbitrary: pre vals)
  case Nil
  show ?case
    by (subst parse_fields.simps) (simp add: dict_update_def)
next
  case (Cons f field_list)
  obtain k w where f: "f = (k, w)" by (cases f)
  from Cons.prems f have enc: "encodable (k, w)" and rest: "list_all encodable field_list"
    by simp_all
  let ?msg = "pre @ encode_field (k, w) @ concat (map encode_field field_list)"
  have "parse_fields ?msg (length pre) vals
      = parse_fields ?msg (length pre + length (encode_field (k, w)))
          (AList.update k (decoded_value w) vals)"
    by (rule parse_fields_field [OF enc])
  also have "\<dots> = parse_fields ((pre @ encode_field (k, w)) @ concat (map encode_field field_list))
      (length (pre @ encode_field (k, w))) (AList.update k (decoded_value w) vals)"
    by (simp only: append_assoc length_append)
  also have "\<dots> = Inr (dict_update (AList.update k (decoded_value w) vals)
      (map (\<lambda>(k, w). (k, decoded_value w)) field_list))"
    by (rule Cons.IH [OF rest])
  finally show ?case
    by (simp add: f dict_update_def)
qed

lemma update_fresh: "k \<notin> fst ` set al \<Longrightarrow> AList.update k v al = al @ [(k, v)]"
  by (induction al) auto

lemma dict_update_fresh:
  "distinct (map fst (ys @ xs)) \<Longrightarrow> dict_update ys xs = ys @ xs"
proof (induction xs arbitrary: ys)
  case Nil
  then show ?case by (simp add: dict_update_def)
next
  case (Cons x xs)
  obtain k v where x: "x = (k, v)" by (cases x)
  from Cons.prems x have fresh: "k \<notin> fst ` set ys" by auto
  from Cons.prems x have "distinct (map fst ((ys @ [(k, v)]) @ xs))" by simp
  then have "dict_update (ys @ [(k, v)]) xs = (ys @ [(k, v)]) @ xs"
    by (rule Cons.IH)
  then show ?case
    using update_fresh [OF fresh, of v] by (simp add: x dict_update_def)
qed

lemma take4_payload: "take 4 (pack_be 4 n @ body) = pack_be 4 n"
  by (simp add: pack_be_def)

lemma slice_body: "slice (pack_be 4 n @ body) 4 (4 + length body) = body"
  by (simp add: slice_def pack_be_def)

lemma pack_le_numeral:
  "pack_le (numeral k) v = of_nat (v mod 256) # pack_le (pred_numeral k) (v div 256)"
  by (subst numeral_eq_Suc) (simp only: pack_le.simps)

text \<open>
  C3. Round trip. For every finite mapping \<open>field_list\<close> (a list of distinct field numbers
  with a value of one of the four wire types each) that the reference encoder can
  encode (field numbers that fit the leading byte, fixed-width values that fit their
  width, a body that fits the length prefix), \<open>_decode_property_message\<close> applied to the
  encoding returns \<open>{"values": field_list}\<close> (the values without their wire types): every field number with its value, in the
  mapping's order.
\<close>

theorem decode_encode_roundtrip:
  assumes "distinct (map fst field_list)" and "encode field_list = Some payload"
  shows "decode_property_message payload
     = Inr (Some (Values (map (\<lambda>(k, w). (k, decoded_value w)) field_list)))"
proof -
  let ?body = "concat (map encode_field field_list)"
  let ?vals = "map (\<lambda>(k, w). (k, decoded_value w)) field_list"
  from assms(2) have enc: "list_all encodable field_list" and len: "length ?body < 2 ^ 32"
    and payload: "payload = pack_be 4 (length ?body) @ ?body"
    by (auto simp: encode_def Let_def split: if_splits)
  have "be_nat (take 4 payload) = length ?body mod 256 ^ 4"
    by (simp only: payload take4_payload be_nat_pack_be)
  with len have msg_len: "be_nat (take 4 payload) = length ?body"
    by simp
  have body: "slice payload 4 (4 + length ?body) = ?body"
    by (simp only: payload slice_body)
  have keys: "map fst ?vals = map fst field_list"
    by (induction field_list) auto
  have "distinct (map fst ([] @ ?vals))"
    unfolding append_Nil keys by (rule assms(1))
  then have "dict_update [] ?vals = [] @ ?vals"
    by (rule dict_update_fresh)
  moreover have "parse_fields ?body 0 [] = Inr (dict_update [] ?vals)"
    using parse_fields_encoded [OF enc, of "[]" "[]"] by simp
  ultimately have "parse_fields ?body 0 [] = Inr ?vals" by (simp only: append_Nil)
  moreover have "length payload = 4 + length ?body"
    by (simp add: payload pack_be_def)
  ultimately show ?thesis
    by (simp add: decode_property_message_def except_return_None_def msg_len body Let_def)
qed

theorem decode_encode_roundtrip_witness:
  "distinct (map fst [(1::nat, Varint 300), (2, LengthDelimited [1, 2, 3]), (3, Fixed32 7),
       (31, Fixed64 9)]) \<and>
   encode [(1, Varint 300), (2, LengthDelimited [1, 2, 3]), (3, Fixed32 7), (31, Fixed64 9)]
     = Some [0, 0, 0, 22, 8, 172, 2, 18, 3, 1, 2, 3, 29, 7, 0, 0, 0,
             249, 9, 0, 0, 0, 0, 0, 0, 0] \<and>
   decode_property_message [0, 0, 0, 22, 8, 172, 2, 18, 3, 1, 2, 3, 29, 7, 0, 0, 0,
             249, 9, 0, 0, 0, 0, 0, 0, 0]
     = Inr (Some (Values [(1, PInt 300), (2, PBytes [1, 2, 3]), (3, PInt 7), (31, PInt 9)]))"
proof -
  let ?field_list = "[(1::nat, Varint 300), (2, LengthDelimited [1, 2, 3]), (3, Fixed32 7),
       (31, Fixed64 9)]"
  have d: "distinct (map fst ?field_list)"
    by simp
  have e: "encode ?field_list
     = Some [0, 0, 0, 22, 8, 172, 2, 18, 3, 1, 2, 3, 29, 7, 0, 0, 0,
             249, 9, 0, 0, 0, 0, 0, 0, 0]"
    by (simp add: encode_def encode_varint.simps pack_be_def pack_le_numeral)
  show ?thesis
    using d e decode_encode_roundtrip [OF d e] by simp
qed

subsection \<open>Failures stay inside the decoder\<close>

lemma decode_varint_loop_exhausted:
  "\<forall>b\<in>set buffer. b AND 0x80 \<noteq> 0 \<Longrightarrow>
   decode_varint_loop buffer val shift offset = Inl ValueError"
  by (induction buffer arbitrary: val shift offset) simp_all

lemma except_return_None_Inr: "\<exists>r. except_return_None body = Inr r"
  by (cases body) (simp_all add: except_return_None_def)

lemma parse_fields_unterminated:
  assumes "tag AND 0x07 = 0 \<or> tag AND 0x07 = 2"
    and "\<forall>b\<in>set rest. b AND 0x80 \<noteq> 0"
  shows "parse_fields (tag # rest) 0 [] = Inl ValueError"
proof -
  have "decode_varint rest = Inl ValueError"
    using assms(2) by (simp add: decode_varint_def decode_varint_loop_exhausted)
  with assms(1) show ?thesis
    by (subst parse_fields.simps) auto
qed

text \<open>
  C8. For every topic and payload, \<open>decode_message\<close> and each decoder it calls return
  (a result or \<open>None\<close>); none lets an exception escape. A payload whose 4-byte
  big-endian prefix declares more bytes than follow it yields \<open>None\<close>. So does a
  message body whose first field is a varint (wire type 0, or the length of wire type
  2) of which every remaining byte of the body has the continuation bit set: the buffer
  is exhausted, \<open>_decode_varint\<close> raises \<open>ValueError\<close>, and the decoder returns \<open>None\<close>.
\<close>

theorem decoder_never_raises:
  "(\<exists>r. decode_message json_loads b64decode topic payload = Inr r) \<and>
   (\<exists>r. decode_property_message payload = Inr r) \<and>
   (\<exists>r. decode_device_property b64decode payload = Inr r) \<and>
   (\<exists>r. decode_binary_message payload = Inr r) \<and>
   (4 \<le> length payload \<and> length payload < be_nat (take 4 payload) + 4
      \<longrightarrow> decode_property_message payload = Inr None) \<and>
   (length hdr = 4 \<and> be_nat hdr = length (tag # rest) \<and>
    (tag AND 0x07 = 0 \<or> tag AND 0x07 = 2) \<and> (\<forall>b\<in>set rest. b AND 0x80 \<noteq> 0)
      \<longrightarrow> decode_property_message (hdr @ tag # rest @ extra) = Inr None)"
proof (intro conjI impI)
  show "\<exists>r. decode_message json_loads b64decode topic payload = Inr r"
    unfolding decode_message_def by (rule except_return_None_Inr)
  show "\<exists>r. decode_property_message payload = Inr r"
    unfolding decode_property_message_def by (rule except_return_None_Inr)
  show "\<exists>r. decode_device_property b64decode payload = Inr r"
    unfolding decode_device_property_def by (rule except_return_None_Inr)
  show "\<exists>r. decode_binary_message payload = Inr r"
    unfolding decode_binary_message_def by (rule except_return_None_Inr)
next
  assume "4 \<le> length payload \<and> length payload < be_nat (take 4 payload) + 4"
  then show "decode_property_message payload = Inr None"
    by (simp add: decode_property_message_def except_return_None_def Let_def)
next
  assume a: "length hdr = 4 \<and> be_nat hdr = length (tag # rest) \<and>
    (tag AND 0x07 = 0 \<or> tag AND 0x07 = 2) \<and> (\<forall>b\<in>set rest. b AND 0x80 \<noteq> 0)"
  then have body: "slice (hdr @ tag # rest @ extra) 4 (4 + length (tag # rest)) = tag # rest"
    by (simp add: slice_def)
  from a have "parse_fields (tag # rest) 0 [] = Inl ValueError"
    by (intro parse_fields_unterminated) simp_all
  with a body show "decode_property_message (hdr @ tag # rest @ extra) = Inr None"
    by (simp add: decode_property_message_def except_return_None_def Let_def)
qed

theorem decoder_never_raises_witness:
  "(4 \<le> length [0, 0, 0, 9, 8, 1 :: byte] \<and>
      length [0, 0, 0, 9, 8, 1 :: byte] < be_nat (take 4 [0, 0, 0, 9, 8, 1]) + 4) \<and>
   decode_property_message [0, 0, 0, 9, 8, 1] = Inr None \<and>
   (length [0, 0, 0, 3 :: byte] = 4 \<and> be_nat [0, 0, 0, 3] = length [8, 0x80, 0x81 :: byte] \<and>
      ((8 :: byte) AND 0x07 = 0 \<or> (8 :: byte) AND 0x07 = 2) \<and>
      (0x80 :: byte) AND 0x80 \<noteq> 0 \<and> (0x81 :: byte) AND 0x80 \<noteq> 0) \<and>
   decode_property_message ([0, 0, 0, 3] @ 8 # [0x80, 0x81] @ []) = Inr None"
proof -
  have h1: "4 \<le> length [0, 0, 0, 9, 8, 1 :: byte] \<and>
      length [0, 0, 0, 9, 8, 1 :: byte] < be_nat (take 4 [0, 0, 0, 9, 8, 1]) + 4"
    by (simp add: be_nat_def)
  have h2: "length [0, 0, 0, 3 :: byte] = 4 \<and> be_nat [0, 0, 0, 3] = length [8, 0x80, 0x81 :: byte] \<and>
      ((8 :: byte) AND 0x07 = 0 \<or> (8 :: byte) AND 0x07 = 2) \<and>
      (\<forall>b\<in>set [0x80, 0x81 :: byte]. b AND 0x80 \<noteq> 0)"
    by (simp add: be_nat_def)
  have h3: "(0x80 :: byte) AND 0x80 \<noteq> 0 \<and> (0x81 :: byte) AND 0x80 \<noteq> 0"
    by simp
  from decoder_never_raises [of "\<lambda>b. Inl JSONDecodeError" "\<lambda>b. Inr b" "''t''"
      "[0, 0, 0, 9, 8, 1]" "[0, 0, 0, 3]" 8 "[0x80, 0x81]" "[]"] h1 h2
  have "decode_property_message [0, 0, 0, 9, 8, 1] = Inr None"
    and "decode_property_message ([0, 0, 0, 3] @ 8 # [0x80, 0x81] @ []) = Inr None"
    by blast+
  with h1 h2 h3 show ?thesis by blast
qed

section \<open>Properties of the stream session manager\<close>

subsection \<open>The subscription set\<close>

lemma status_topic_inj [simp]:
  "MQTT_TOPIC_DEVICE_STATUS a = MQTT_TOPIC_DEVICE_STATUS b \<longleftrightarrow> a = b"
  by (simp add: MQTT_TOPIC_DEVICE_STATUS_def)

lemma property_topic_inj [simp]:
  "MQTT_TOPIC_DEVICE_PROPERTY a = MQTT_TOPIC_DEVICE_PROPERTY b \<longleftrightarrow> a = b"
  by (simp add: MQTT_TOPIC_DEVICE_PROPERTY_def)

lemma set_result_topic_inj [simp]:
  "MQTT_TOPIC_PROPERTY_SET_RESULT a = MQTT_TOPIC_PROPERTY_SET_RESULT b \<longleftrightarrow> a = b"
  by (simp add: MQTT_TOPIC_PROPERTY_SET_RESULT_def)

lemma status_ne_property [simp]:
  "MQTT_TOPIC_DEVICE_STATUS a \<noteq> MQTT_TOPIC_DEVICE_PROPERTY b"
proof
  assume "MQTT_TOPIC_DEVICE_STATUS a = MQTT_TOPIC_DEVICE_PROPERTY b"
  then have "a @ ''/status'' = b @ ''/properties''"
    by (simp add: MQTT_TOPIC_DEVICE_STATUS_def MQTT_TOPIC_DEVICE_PROPERTY_def)
  then have "rev (a @ ''/status'') = rev (b @ ''/properties'')"
    by (rule arg_cong)
  then show False by simp
qed

lemma status_ne_set_result [simp]:
  "MQTT_TOPIC_DEVICE_STATUS a \<noteq> MQTT_TOPIC_PROPERTY_SET_RESULT b"
proof
  assume "MQTT_TOPIC_DEVICE_STATUS a = MQTT_TOPIC_PROPERTY_SET_RESULT b"
  then have "a @ ''/status'' = b @ ''/property/set/result''"
    by (simp add: MQTT_TOPIC_DEVICE_STATUS_def MQTT_TOPIC_PROPERTY_SET_RESULT_def)
  then have "rev (a @ ''/status'') = rev (b @ ''/property/set/result'')"
    by (rule arg_cong)
  then show False by simp
qed

lemma property_ne_set_result [simp]:
  "MQTT_TOPIC_DEVICE_PROPERTY a \<noteq> MQTT_TOPIC_PROPERTY_SET_RESULT b"
proof
  assume "MQTT_TOPIC_DEVICE_PROPERTY a = MQTT_TOPIC_PROPERTY_SET_RESULT b"
  then have "a @ ''/properties'' = b @ ''/property/set/result''"
    by (simp add: MQTT_TOPIC_DEVICE_PROPERTY_def MQTT_TOPIC_PROPERTY_SET_RESULT_def)
  then have "rev (a @ ''/properties'') = rev (b @ ''/property/set/result'')"
    by (rule arg_cong)
  then show False by simp
qed

lemmas topic_ne_sym [simp] =
  status_ne_property [symmetric] status_ne_set_result [symmetric] property_ne_set_result [symmetric]

lemma topics_consistent_empty: "topics_consistent {}"
  by (simp add: topics_consistent_def)

lemma topics_consistent_insert:
  assumes "topics_consistent S"
  shows "topics_consistent
     (insert (MQTT_TOPIC_PROPERTY_SET_RESULT sn)
        (insert (MQTT_TOPIC_DEVICE_PROPERTY sn) (insert (MQTT_TOPIC_DEVICE_STATUS sn) S)))"
  using assms unfolding topics_consistent_def by simp blast

lemma subscribe_topics:
  "subscribed_topics (fst (snd (async_subscribe_to_device broker st sn))) = subscribed_topics st \<or>
   subscribed_topics (fst (snd (async_subscribe_to_device broker st sn))) =
     insert (MQTT_TOPIC_PROPERTY_SET_RESULT sn)
        (insert (MQTT_TOPIC_DEVICE_PROPERTY sn)
           (insert (MQTT_TOPIC_DEVICE_STATUS sn) (subscribed_topics st)))"
  by (simp add: async_subscribe_to_device_def Let_def)

lemma connect_topics:
  "subscribed_topics (snd (async_connect outcome st)) = subscribed_topics st \<or>
   subscribed_topics (snd (async_connect outcome st)) = {}"
  by (simp add: async_connect_def Let_def disconnect_def on_connect_def
      split: connect_outcome.splits option.splits)

lemma process_message_topics:
  "subscribed_topics (fst (process_message json_loads st msg)) = subscribed_topics st"
  by (simp add: process_message_def Let_def split: prod.splits sum.splits option.splits)

lemma worker_topics:
  "message_worker_step json_loads st = Some (st', calls) \<Longrightarrow>
   subscribed_topics st' = subscribed_topics st"
  using process_message_topics [of json_loads "st\<lparr>message_queue := tl (message_queue st)\<rparr>" "hd (message_queue st)"]
  by (auto simp: message_worker_step_def split: list.splits)

lemma reachable_topics_consistent:
  "reachable st \<Longrightarrow> topics_consistent (subscribed_topics st)"
proof (induction rule: reachable.induct)
  case reach_init
  show ?case by (simp add: init_state_def topics_consistent_empty)
next
  case (reach_connect st outcome)
  with connect_topics [of outcome st] show ?case
    by (auto simp: topics_consistent_empty)
next
  case (reach_on_connect st rc)
  then show ?case by (simp add: on_connect_def)
next
  case (reach_on_disconnect st)
  then show ?case by (simp add: on_disconnect_def)
next
  case (reach_on_message st topic payload)
  then show ?case by (simp add: on_message_def)
next
  case (reach_subscribe st broker device_sn)
  with subscribe_topics [of broker st device_sn] show ?case
    by (auto simp: topics_consistent_insert)
next
  case (reach_publish st published)
  then show ?case by (simp add: async_publish_def)
next
  case (reach_register st topic_pattern callback)
  then show ?case by (simp add: register_message_callback_def)
next
  case (reach_worker st json_loads st' calls)
  then show ?case by (simp add: worker_topics)
next
  case (reach_disconnect st)
  then show ?case by (simp add: disconnect_def topics_consistent_empty)
qed

text \<open>
  C10. In every state the client can reach from its initial state (empty subscription
  set), by any sequence of its methods and callbacks, and for every serial: the status
  topic is subscribed if and only if the properties topic and the property-set-result
  topic both are. The three are in fact subscribed together or not at all: the status
  topic is subscribed as soon as one of the other two is.
\<close>

theorem subscription_invariant:
  assumes "reachable st"
  shows "(MQTT_TOPIC_DEVICE_STATUS sn \<in> subscribed_topics st \<longleftrightarrow>
            MQTT_TOPIC_DEVICE_PROPERTY sn \<in> subscribed_topics st \<and>
            MQTT_TOPIC_PROPERTY_SET_RESULT sn \<in> subscribed_topics st) \<and>
         (MQTT_TOPIC_DEVICE_STATUS sn \<in> subscribed_topics st \<longleftrightarrow>
            MQTT_TOPIC_DEVICE_PROPERTY sn \<in> subscribed_topics st \<or>
            MQTT_TOPIC_PROPERTY_SET_RESULT sn \<in> subscribed_topics st)"
  using reachable_topics_consistent [OF assms] unfolding topics_consistent_def by blast

theorem subscription_invariant_witness:
  "reachable (fst (snd (async_subscribe_to_device (\<lambda>topic. MQTT_ERR_SUCCESS)
       (on_connect 0 (snd (async_connect (ConnectStarted None) (init_state :: nat mqtt_client_state))))
       ''SN1''))) \<and>
   MQTT_TOPIC_DEVICE_STATUS ''SN1'' \<in> subscribed_topics (fst (snd (async_subscribe_to_device
       (\<lambda>topic. MQTT_ERR_SUCCESS)
       (on_connect 0 (snd (async_connect (ConnectStarted None) (init_state :: nat mqtt_client_state))))
       ''SN1''))) \<and>
   MQTT_TOPIC_DEVICE_PROPERTY ''SN1'' \<in> subscribed_topics (fst (snd (async_subscribe_to_device
       (\<lambda>topic. MQTT_ERR_SUCCESS)
       (on_connect 0 (snd (async_connect (ConnectStarted None) (init_state :: nat mqtt_client_state))))
       ''SN1''))) \<and>
   MQTT_TOPIC_PROPERTY_SET_RESULT ''SN1'' \<in> subscribed_topics (fst (snd (async_subscribe_to_device
       (\<lambda>topic. MQTT_ERR_SUCCESS)
       (on_connect 0 (snd (async_connect (ConnectStarted None) (init_state :: nat mqtt_client_state))))
       ''SN1'')))"
proof -
  let ?st = "fst (snd (async_subscribe_to_device (\<lambda>topic. MQTT_ERR_SUCCESS)
       (on_connect 0 (snd (async_connect (ConnectStarted None) (init_state :: nat mqtt_client_state))))
       ''SN1''))"
  have r: "reachable ?st"
    by (intro reach_subscribe reach_on_connect reach_connect reach_init)
  have s: "MQTT_TOPIC_DEVICE_STATUS ''SN1'' \<in> subscribed_topics ?st"
    by (simp add: async_subscribe_to_device_def async_connect_def on_connect_def init_state_def Let_def)
  from subscription_invariant [OF r, of "''SN1''"] r s show ?thesis
    by blast
qed

subsection \<open>Subscribing twice\<close>

text \<open>
  C9, as the spec states it, fails: a connected client whose broker library answers a
  subscription with an error code returns \<open>False\<close> from the first call and from the
  second, and the second call asks the broker for the three subscriptions again.
\<close>

theorem subscribe_twice_counterexample:
  "connected \<lparr>mqtt_client = True, connected = True, subscribed_topics = {},
       message_callbacks = [] :: (string \<times> nat) list, device_data = [], message_queue = []\<rparr> \<and>
   async_subscribe_to_device (\<lambda>topic. MQTT_ERR_OTHER)
      \<lparr>mqtt_client = True, connected = True, subscribed_topics = {},
       message_callbacks = [] :: (string \<times> nat) list, device_data = [], message_queue = []\<rparr> ''SN1''
     = (False,
        \<lparr>mqtt_client = True, connected = True, subscribed_topics = {},
         message_callbacks = [], device_data = [], message_queue = []\<rparr>,
        [''thingspro/device/SN1/status'', ''thingspro/device/SN1/properties'',
         ''thingspro/device/SN1/property/set/result'']) \<and>
   async_subscribe_to_device (\<lambda>topic. MQTT_ERR_OTHER)
      (fst (snd (async_subscribe_to_device (\<lambda>topic. MQTT_ERR_OTHER)
         \<lparr>mqtt_client = True, connected = True, subscribed_topics = {},
          message_callbacks = [] :: (string \<times> nat) list, device_data = [], message_queue = []\<rparr>
         ''SN1''))) ''SN1''
     = (False,
        \<lparr>mqtt_client = True, connected = True, subscribed_topics = {},
         message_callbacks = [], device_data = [], message_queue = []\<rparr>,
        [''thingspro/device/SN1/status'', ''thingspro/device/SN1/properties'',
         ''thingspro/device/SN1/property/set/result''])"
  by (simp add: async_subscribe_to_device_def Let_def MQTT_TOPIC_DEVICE_STATUS_def
        MQTT_TOPIC_DEVICE_PROPERTY_def MQTT_TOPIC_PROPERTY_SET_RESULT_def)

text \<open>
  C9, amended. A call that returns \<open>True\<close> makes every call that follows it directly, for
  the same serial and whatever the broker would answer, return \<open>True\<close>, ask the broker
  for nothing and leave the state (so the subscription set) as it is. The first call
  returns \<open>True\<close> when the client is connected, has its client object, and the broker
  answers all three subscriptions with success; when the broker answers one of them
  otherwise (an error code, or the call raises), a connected client that has not
  subscribed the device returns \<open>False\<close> and its state stays as it is. A client that is
  not connected returns \<open>False\<close>, asks for nothing and changes nothing.
\<close>

theorem subscribe_idempotent:
  "(async_subscribe_to_device broker st device_sn = (True, st1, requests)
      \<longrightarrow> async_subscribe_to_device broker' st1 device_sn = (True, st1, [])) \<and>
   (connected st \<and> mqtt_client st \<and>
    broker (MQTT_TOPIC_DEVICE_STATUS device_sn) = MQTT_ERR_SUCCESS \<and>
    broker (MQTT_TOPIC_DEVICE_PROPERTY device_sn) = MQTT_ERR_SUCCESS \<and>
    broker (MQTT_TOPIC_PROPERTY_SET_RESULT device_sn) = MQTT_ERR_SUCCESS
      \<longrightarrow> fst (async_subscribe_to_device broker st device_sn)) \<and>
   (connected st \<and> MQTT_TOPIC_DEVICE_STATUS device_sn \<notin> subscribed_topics st \<and>
    (broker (MQTT_TOPIC_DEVICE_STATUS device_sn) \<noteq> MQTT_ERR_SUCCESS \<or>
     broker (MQTT_TOPIC_DEVICE_PROPERTY device_sn) \<noteq> MQTT_ERR_SUCCESS \<or>
     broker (MQTT_TOPIC_PROPERTY_SET_RESULT device_sn) \<noteq> MQTT_ERR_SUCCESS)
      \<longrightarrow> \<not> fst (async_subscribe_to_device broker st device_sn) \<and>
          fst (snd (async_subscribe_to_device broker st device_sn)) = st) \<and>
   (\<not> connected st \<longrightarrow> async_subscribe_to_device broker st device_sn = (False, st, []))"
proof (intro conjI impI)
  assume a: "async_subscribe_to_device broker st device_sn = (True, st1, requests)"
  then have "connected st1 \<and> MQTT_TOPIC_DEVICE_STATUS device_sn \<in> subscribed_topics st1"
    by (auto simp: async_subscribe_to_device_def Let_def split: if_splits)
  then show "async_subscribe_to_device broker' st1 device_sn = (True, st1, [])"
    by (simp add: async_subscribe_to_device_def)
next
  assume "connected st \<and> mqtt_client st \<and>
    broker (MQTT_TOPIC_DEVICE_STATUS device_sn) = MQTT_ERR_SUCCESS \<and>
    broker (MQTT_TOPIC_DEVICE_PROPERTY device_sn) = MQTT_ERR_SUCCESS \<and>
    broker (MQTT_TOPIC_PROPERTY_SET_RESULT device_sn) = MQTT_ERR_SUCCESS"
  then show "fst (async_subscribe_to_device broker st device_sn)"
    by (simp add: async_subscribe_to_device_def Let_def)
next
  assume b: "connected st \<and> MQTT_TOPIC_DEVICE_STATUS device_sn \<notin> subscribed_topics st \<and>
    (broker (MQTT_TOPIC_DEVICE_STATUS device_sn) \<noteq> MQTT_ERR_SUCCESS \<or>
     broker (MQTT_TOPIC_DEVICE_PROPERTY device_sn) \<noteq> MQTT_ERR_SUCCESS \<or>
     broker (MQTT_TOPIC_PROPERTY_SET_RESULT device_sn) \<noteq> MQTT_ERR_SUCCESS)"
  then show "\<not> fst (async_subscribe_to_device broker st device_sn)"
    by (auto simp: async_subscribe_to_device_def Let_def)
  from b show "fst (snd (async_subscribe_to_device broker st device_sn)) = st"
    by (auto simp: async_subscribe_to_device_def Let_def)
next
  assume "\<not> connected st"
  then show "async_subscribe_to_device broker st device_sn = (False, st, [])"
    by (simp add: async_subscribe_to_device_def)
qed

theorem subscribe_idempotent_witness:
  "async_subscribe_to_device (\<lambda>topic. MQTT_ERR_SUCCESS)
      \<lparr>mqtt_client = True, connected = True, subscribed_topics = {},
       message_callbacks = [] :: (string \<times> nat) list, device_data = [], message_queue = []\<rparr> ''SN1''
     = (True,
        \<lparr>mqtt_client = True, connected = True,
         subscribed_topics = {''thingspro/device/SN1/property/set/result'',
           ''thingspro/device/SN1/properties'', ''thingspro/device/SN1/status''},
         message_callbacks = [], device_data = [], message_queue = []\<rparr>,
        [''thingspro/device/SN1/status'', ''thingspro/device/SN1/properties'',
         ''thingspro/device/SN1/property/set/result'']) \<and>
   async_subscribe_to_device (\<lambda>topic. MQTT_ERR_OTHER)
      \<lparr>mqtt_client = True, connected = True,
       subscribed_topics = {''thingspro/device/SN1/property/set/result'',
         ''thingspro/device/SN1/properties'', ''thingspro/device/SN1/status''},
       message_callbacks = [] :: (string \<times> nat) list, device_data = [], message_queue = []\<rparr> ''SN1''
     = (True,
        \<lparr>mqtt_client = True, connected = True,
         subscribed_topics = {''thingspro/device/SN1/property/set/result'',
           ''thingspro/device/SN1/properties'', ''thingspro/device/SN1/status''},
         message_callbacks = [], device_data = [], message_queue = []\<rparr>,
        []) \<and>
   \<not> connected (init_state :: nat mqtt_client_state) \<and>
   async_subscribe_to_device (\<lambda>topic. MQTT_ERR_SUCCESS) (init_state :: nat mqtt_client_state) ''SN1''
     = (False, init_state, [])"
proof -
  let ?st = "\<lparr>mqtt_client = True, connected = True, subscribed_topics = {},
       message_callbacks = [] :: (string \<times> nat) list, device_data = [], message_queue = []\<rparr>"
  let ?st1 = "\<lparr>mqtt_client = True, connected = True,
         subscribed_topics = {''thingspro/device/SN1/property/set/result'',
           ''thingspro/device/SN1/properties'', ''thingspro/device/SN1/status''},
         message_callbacks = [] :: (string \<times> nat) list, device_data = [], message_queue = []\<rparr>"
  let ?reqs = "[''thingspro/device/SN1/status'', ''thingspro/device/SN1/properties'',
         ''thingspro/device/SN1/property/set/result'']"
  have first: "async_subscribe_to_device (\<lambda>topic. MQTT_ERR_SUCCESS) ?st ''SN1'' = (True, ?st1, ?reqs)"
    by (simp add: async_subscribe_to_device_def Let_def MQTT_TOPIC_DEVICE_STATUS_def
        MQTT_TOPIC_DEVICE_PROPERTY_def MQTT_TOPIC_PROPERTY_SET_RESULT_def)
  have nc: "\<not> connected (init_state :: nat mqtt_client_state)"
    by (simp add: init_state_def)
  from subscribe_idempotent [where broker = "\<lambda>topic. MQTT_ERR_SUCCESS" and st = ?st
      and device_sn = "''SN1''" and ?st1.0 = ?st1 and requests = ?reqs
      and broker' = "\<lambda>topic. MQTT_ERR_OTHER"] first
  have second: "async_subscribe_to_device (\<lambda>topic. MQTT_ERR_OTHER) ?st1 ''SN1'' = (True, ?st1, [])"
    by blast
  from subscribe_idempotent [where broker = "\<lambda>topic. MQTT_ERR_SUCCESS"
      and st = "init_state :: nat mqtt_client_state" and device_sn = "''SN1''"] nc
  have third: "async_subscribe_to_device (\<lambda>topic. MQTT_ERR_SUCCESS)
      (init_state :: nat mqtt_client_state) ''SN1'' = (False, init_state, [])"
    by blast
  from first second nc third show ?thesis by blast
qed

subsection \<open>The message worker\<close>

lemma find_device_sn_eq:
  "find_device_sn patterns topic =
     (if (\<exists>pattern\<in>set patterns. str_in pattern topic) \<and> 3 \<le> length (split_on CHR ''/'' topic)
      then Some (split_on CHR ''/'' topic ! 2) else None)"
  by (induction patterns) (auto simp: Let_def)

lemma not_in_keys_iff: "k \<notin> fst ` set al \<longleftrightarrow> map_of al k = None"
  by (simp add: map_of_eq_None_iff)

text \<open>
  C2, as the spec states it, fails: the worker never calls the payload decoder. Here a
  callback is registered for a pattern that occurs in the topic, \<open>json.loads\<close> rejects the
  payload, and the payload decoder (given the same topic and the payload's bytes) returns
  a result; the worker schedules no callback and leaves the state as it is.
\<close>

theorem worker_no_fallback_counterexample:
  "str_in ''status'' ''thingspro/device/SN1/status'' \<and>
   decode_message (\<lambda>payload. Inl JSONDecodeError) (\<lambda>payload. Inr payload)
       ''thingspro/device/SN1/status'' (str_encode ''offline'')
     = Inr (Some (RawHex ''6f66666c696e65'' [])) \<and>
   process_message (\<lambda>payload. Inl JSONDecodeError)
       \<lparr>mqtt_client = True, connected = True, subscribed_topics = {},
        message_callbacks = [(''status'', 7 :: nat)], device_data = [], message_queue = []\<rparr>
       (''thingspro/device/SN1/status'', ''offline'')
     = (\<lparr>mqtt_client = True, connected = True, subscribed_topics = {},
         message_callbacks = [(''status'', 7)], device_data = [], message_queue = []\<rparr>, [])"
proof (intro conjI)
  show "str_in ''status'' ''thingspro/device/SN1/status''"
    by (simp add: str_in_def sublist_code)
  show "decode_message (\<lambda>payload. Inl JSONDecodeError) (\<lambda>payload. Inr payload)
       ''thingspro/device/SN1/status'' (str_encode ''offline'')
     = Inr (Some (RawHex ''6f66666c696e65'' []))"
    by (simp add: decode_message_def except_return_None_def decode_binary_message_def
        str_in_def sublist_code str_encode_def bytes_hex_def hex_digit_def)
  show "process_message (\<lambda>payload. Inl JSONDecodeError)
       \<lparr>mqtt_client = True, connected = True, subscribed_topics = {},
        message_callbacks = [(''status'', 7 :: nat)], device_data = [], message_queue = []\<rparr>
       (''thingspro/device/SN1/status'', ''offline'')
     = (\<lparr>mqtt_client = True, connected = True, subscribed_topics = {},
         message_callbacks = [(''status'', 7)], device_data = [], message_queue = []\<rparr>, [])"
    by (simp add: process_message_def)
qed

text \<open>
  C2, amended. Whatever \<open>json.loads\<close> raises, the worker drops the message: no callback,
  no change of state. When \<open>json.loads\<close> returns a JSON object, the worker schedules, in
  registration order, every callback whose pattern occurs in the topic, with the topic
  and the object; it changes nothing but \<open>device_data\<close>; and the stored data of a serial
  \<open>sn\<close> becomes its old data updated with the object's items exactly when some registered
  pattern occurs in the topic, the topic has at least three \<open>/\<close>-separated parts of which
  the third is \<open>sn\<close>, \<open>sn\<close> is not empty and \<open>properties\<close> occurs in the topic; the data of
  every other serial stays.
\<close>

theorem message_worker_json_only:
  "(json_loads payload = Inl e \<longrightarrow> process_message json_loads st (topic, payload) = (st, [])) \<and>
   (json_loads payload = Inr (JObj props) \<longrightarrow>
      snd (process_message json_loads st (topic, payload))
        = map (\<lambda>(pattern, callback). (callback, topic, JObj props))
            (filter (\<lambda>(pattern, callback). str_in pattern topic) (message_callbacks st)) \<and>
      fst (process_message json_loads st (topic, payload))
        = st\<lparr>device_data := device_data (fst (process_message json_loads st (topic, payload)))\<rparr> \<and>
      (\<forall>sn. get_device_data (fst (process_message json_loads st (topic, payload))) sn =
          (if (\<exists>pattern\<in>fst ` set (message_callbacks st). str_in pattern topic) \<and>
              3 \<le> length (split_on CHR ''/'' topic) \<and> split_on CHR ''/'' topic ! 2 = sn \<and>
              sn \<noteq> [] \<and> str_in ''properties'' topic
           then dict_update (get_device_data st sn) props
           else get_device_data st sn)))"
proof (intro conjI impI allI)
  assume "json_loads payload = Inl e"
  then show "process_message json_loads st (topic, payload) = (st, [])"
    by (simp add: process_message_def)
next
  assume "json_loads payload = Inr (JObj props)"
  then show "snd (process_message json_loads st (topic, payload))
        = map (\<lambda>(pattern, callback). (callback, topic, JObj props))
            (filter (\<lambda>(pattern, callback). str_in pattern topic) (message_callbacks st))"
    by (simp add: process_message_def update_device_data_def Let_def split: option.splits)
next
  assume "json_loads payload = Inr (JObj props)"
  then show "fst (process_message json_loads st (topic, payload))
        = st\<lparr>device_data := device_data (fst (process_message json_loads st (topic, payload)))\<rparr>"
    by (simp add: process_message_def update_device_data_def Let_def split: option.splits)
next
  fix sn
  assume "json_loads payload = Inr (JObj props)"
  then show "get_device_data (fst (process_message json_loads st (topic, payload))) sn =
          (if (\<exists>pattern\<in>fst ` set (message_callbacks st). str_in pattern topic) \<and>
              3 \<le> length (split_on CHR ''/'' topic) \<and> split_on CHR ''/'' topic ! 2 = sn \<and>
              sn \<noteq> [] \<and> str_in ''properties'' topic
           then dict_update (get_device_data st sn) props
           else get_device_data st sn)"
    by (auto simp: process_message_def update_device_data_def Let_def find_device_sn_eq
        get_device_data_def update_conv' not_in_keys_iff split: option.splits)
qed

theorem message_worker_json_only_witness:
  "snd (process_message (\<lambda>payload. Inr (JObj [(''soc'', JInt 80)]))
       \<lparr>mqtt_client = True, connected = True, subscribed_topics = {},
        message_callbacks = [(''properties'', 7 :: nat), (''status'', 8)],
        device_data = [(''SN1'', [(''soc'', JInt 50), (''pwr'', JInt 3)])], message_queue = []\<rparr>
       (''thingspro/device/SN1/properties'', ''{\"soc\": 80}''))
     = [(7, ''thingspro/device/SN1/properties'', JObj [(''soc'', JInt 80)])] \<and>
   get_device_data (fst (process_message (\<lambda>payload. Inr (JObj [(''soc'', JInt 80)]))
       \<lparr>mqtt_client = True, connected = True, subscribed_topics = {},
        message_callbacks = [(''properties'', 7 :: nat), (''status'', 8)],
        device_data = [(''SN1'', [(''soc'', JInt 50), (''pwr'', JInt 3)])], message_queue = []\<rparr>
       (''thingspro/device/SN1/properties'', ''{\"soc\": 80}''))) ''SN1''
     = [(''soc'', JInt 80), (''pwr'', JInt 3)] \<and>
   process_message (\<lambda>payload. Inl JSONDecodeError)
       \<lparr>mqtt_client = True, connected = True, subscribed_topics = {},
        message_callbacks = [(''properties'', 7 :: nat), (''status'', 8)],
        device_data = [(''SN1'', [(''soc'', JInt 50), (''pwr'', JInt 3)])], message_queue = []\<rparr>
       (''thingspro/device/SN1/properties'', ''offline'')
     = (\<lparr>mqtt_client = True, connected = True, subscribed_topics = {},
         message_callbacks = [(''properties'', 7 :: nat), (''status'', 8)],
         device_data = [(''SN1'', [(''soc'', JInt 50), (''pwr'', JInt 3)])], message_queue = []\<rparr>, [])"
proof -
  let ?st = "\<lparr>mqtt_client = True, connected = True, subscribed_topics = {},
        message_callbacks = [(''properties'', 7 :: nat), (''status'', 8)],
        device_data = [(''SN1'', [(''soc'', JInt 50), (''pwr'', JInt 3)])], message_queue = []\<rparr>"
  let ?topic = "''thingspro/device/SN1/properties''"
  have parts: "split_on CHR ''/'' ?topic = [''thingspro'', ''device'', ''SN1'', ''properties'']"
    by simp
  have in1: "str_in ''properties'' ?topic" and in2: "\<not> str_in ''status'' ?topic"
    by (simp_all add: str_in_def sublist_code)
  note ok = message_worker_json_only [where json_loads = "\<lambda>payload. Inr (JObj [(''soc'', JInt 80)])"
      and payload = "''{\"soc\": 80}''" and props = "[(''soc'', JInt 80)]" and st = ?st and topic = ?topic]
  note ko = message_worker_json_only [where json_loads = "\<lambda>payload. Inl JSONDecodeError"
      and payload = "''offline''" and e = JSONDecodeError and st = ?st and topic = ?topic]
  from ok have calls: "snd (process_message (\<lambda>payload. Inr (JObj [(''soc'', JInt 80)])) ?st
       (?topic, ''{\"soc\": 80}'')) = [(7, ?topic, JObj [(''soc'', JInt 80)])]"
    by (simp add: in1 in2)
  from ok have "get_device_data (fst (process_message (\<lambda>payload. Inr (JObj [(''soc'', JInt 80)])) ?st
       (?topic, ''{\"soc\": 80}''))) ''SN1'' = dict_update (get_device_data ?st ''SN1'') [(''soc'', JInt 80)]"
    by (simp add: in1 parts)
  then have state: "get_device_data (fst (process_message (\<lambda>payload. Inr (JObj [(''soc'', JInt 80)])) ?st
       (?topic, ''{\"soc\": 80}''))) ''SN1'' = [(''soc'', JInt 80), (''pwr'', JInt 3)]"
    by (simp add: get_device_data_def dict_update_def)
  from ko have dropped: "process_message (\<lambda>payload. Inl JSONDecodeError) ?st (?topic, ''offline'') = (?st, [])"
    by simp
  from calls state dropped show ?thesis by blast
qed

section \<open>Properties of the snapshot normalizer\<close>

lemma exn_bind_Inl [simp]: "exn_bind (Inl e) f = Inl e"
  by (simp add: exn_bind_def)

lemma exn_bind_Inr [simp]: "exn_bind (Inr v) f = f v"
  by (simp add: exn_bind_def)

lemma dict_update_Nil [simp]: "dict_update sensors [] = sensors"
  by (simp add: dict_update_def)

lemma dict_update_Cons [simp]:
  "dict_update sensors (p # ps) = dict_update (AList.update (fst p) (snd p) sensors) ps"
  by (simp add: dict_update_def case_prod_unfold)

lemma dict_update_append: "dict_update sensors (ps @ qs) = dict_update (dict_update sensors ps) qs"
  by (simp add: dict_update_def)

lemma map_of_dict_update:
  "map_of (dict_update sensors ws) k =
     (case map_of (rev ws) k of Some v \<Rightarrow> Some v | None \<Rightarrow> map_of sensors k)"
proof (induction ws arbitrary: sensors)
  case Nil
  show ?case by simp
next
  case (Cons p ws)
  obtain k' v' where p: "p = (k', v')" by (cases p)
  show ?case
    by (simp add: Cons.IH p update_conv' map_add_def split: option.splits)
qed

lemma distinct_dict_update:
  "distinct (map fst sensors) \<Longrightarrow> distinct (map fst (dict_update sensors ws))"
  by (induction ws arbitrary: sensors) (simp_all add: distinct_update)

lemma dict_update_snoc:
  "dict_update sensors (ws @ [(k, v)]) = AList.update k v (dict_update sensors ws)"
  by (simp add: dict_update_append)

lemma distinct_map_of_rev:
  assumes "distinct (map fst xs)"
  shows "map_of (rev xs) = map_of xs"
proof -
  from assms have "distinct (map fst (rev xs))"
    by (simp add: rev_map [symmetric])
  with assms show ?thesis
    by (simp add: map_of_inject_set)
qed

lemma map_of_dict_update_last:
  "map_of (dict_update sensors (dict_update [] (ws @ [(k, v)]))) k = Some v"
proof -
  have d: "distinct (map fst (dict_update [] (ws @ [(k, v)])))"
    by (rule distinct_dict_update) simp
  have "map_of (dict_update [] (ws @ [(k, v)])) k = Some v"
    by (simp add: dict_update_snoc update_conv')
  with d have "map_of (rev (dict_update [] (ws @ [(k, v)]))) k = Some v"
    by (simp add: distinct_map_of_rev)
  then show ?thesis
    by (simp add: map_of_dict_update)
qed

lemma map_of_dict_update_write:
  assumes "k \<notin> fst ` set ws2"
  shows "map_of (dict_update sensors (dict_update [] (ws1 @ (k, v) # ws2))) k = Some v"
proof -
  let ?data = "dict_update [] (ws1 @ (k, v) # ws2)"
  have d: "distinct (map fst ?data)"
    by (rule distinct_dict_update) simp
  from assms have "map_of (rev ws2) k = None"
    by (simp add: map_of_eq_None_iff)
  then have "map_of (rev (ws1 @ (k, v) # ws2)) k = Some v"
    by (simp add: map_add_def)
  then have "map_of ?data k = Some v"
    by (simp add: map_of_dict_update)
  with d have "map_of (rev ?data) k = Some v"
    by (simp add: distinct_map_of_rev)
  then show ?thesis
    by (simp add: map_of_dict_update)
qed

lemma append_sep_eq:
  assumes "c \<notin> set xs" and "c \<notin> set xs'" and "xs @ c # ys = xs' @ c # ys'"
  shows "xs = xs' \<and> ys = ys'"
  using assms
proof (induction xs arbitrary: xs')
  case Nil
  then show ?case by (cases xs') auto
next
  case (Cons x xs)
  then show ?case by (cases xs') auto
qed

lemma string_of_nat_digit: "n < 10 \<Longrightarrow> string_of_nat n = [''0123456789'' ! n]"
  by (subst string_of_nat.simps) simp

lemma string_of_nat_1_2_3:
  "string_of_nat (Suc 0) = ''1''" "string_of_nat (Suc (Suc 0)) = ''2''"
  "string_of_nat (Suc (Suc (Suc 0))) = ''3''"
  by (simp_all add: string_of_nat_digit)

lemma digit_no_sep: "n < 10 \<Longrightarrow> ''0123456789'' ! n \<noteq> CHR ''_''"
proof -
  assume "n < 10"
  then have "''0123456789'' ! n \<in> set ''0123456789''"
    by (intro nth_mem) simp
  then show ?thesis by auto
qed

lemma string_of_nat_no_sep: "CHR ''_'' \<notin> set (string_of_nat n)"
proof (induction n rule: string_of_nat.induct)
  case (1 n)
  show ?case
  proof (cases "n < 10")
    case True
    then show ?thesis
      using digit_no_sep [of n] by (simp add: string_of_nat_digit)
  next
    case False
    have "n mod 10 < 10" by simp
    from digit_no_sep [OF this] 1 [OF False] False show ?thesis
      by (subst string_of_nat.simps) simp
  qed
qed

lemma string_of_nat_ne: "string_of_nat n \<noteq> []"
  by (subst string_of_nat.simps) simp

lemma digit_inj: "m < 10 \<Longrightarrow> n < 10 \<Longrightarrow> ''0123456789'' ! m = ''0123456789'' ! n \<Longrightarrow> m = n"
proof -
  assume "m < 10" "n < 10" "''0123456789'' ! m = ''0123456789'' ! n"
  moreover have "distinct ''0123456789''" by simp
  ultimately show ?thesis
    by (simp add: nth_eq_iff_index_eq)
qed

lemma string_of_nat_inj: "string_of_nat m = string_of_nat n \<Longrightarrow> m = n"
proof (induction m arbitrary: n rule: string_of_nat.induct)
  case (1 m)
  show ?case
  proof (cases "m < 10")
    case True
    note m = this
    show ?thesis
    proof (cases "n < 10")
      case True
      with m 1(2) show ?thesis
        by (simp add: string_of_nat_digit digit_inj)
    next
      case False
      then have "string_of_nat n = string_of_nat (n div 10) @ [''0123456789'' ! (n mod 10)]"
        by (subst string_of_nat.simps) simp
      with m 1(2) string_of_nat_ne [of "n div 10"] show ?thesis
        by (simp add: string_of_nat_digit)
    qed
  next
    case False
    note m = this
    then have em: "string_of_nat m = string_of_nat (m div 10) @ [''0123456789'' ! (m mod 10)]"
      by (subst string_of_nat.simps) simp
    show ?thesis
    proof (cases "n < 10")
      case True
      with em 1(2) string_of_nat_ne [of "m div 10"] show ?thesis
        by (simp add: string_of_nat_digit)
    next
      case False
      then have en: "string_of_nat n = string_of_nat (n div 10) @ [''0123456789'' ! (n mod 10)]"
        by (subst string_of_nat.simps) simp
      from em en 1(2) have a: "string_of_nat (m div 10) = string_of_nat (n div 10)"
        and b: "''0123456789'' ! (m mod 10) = ''0123456789'' ! (n mod 10)"
        by simp_all
      from 1(1) [OF m a] have "m div 10 = n div 10" .
      moreover from b have "m mod 10 = n mod 10"
        by (intro digit_inj) simp_all
      ultimately show ?thesis
        by (metis div_mult_mod_eq)
    qed
  qed
qed

subsection \<open>A missing report\<close>

text \<open>
  C1, as the spec states it, fails: for a document whose \<open>quota\<close> object is empty the
  top-level report gives its data points, and then \<open>_get_sensors\<close> raises \<open>KeyError\<close> at
  the energy-stream report; the caller receives no collection.
\<close>

theorem get_sensors_empty_quota_counterexample:
  "get_sensors_data [(''data'', [''sysLoadPwr'']), (''JTS1_ENERGY_STREAM_REPORT'', []),
        (''JTS1_EMS_CHANGE_REPORT'', []), (''JTS1_BP_STA_REPORT'', []), (''JTS1_EMS_HEARTBEAT'', [])]
      ''SN1'' (JObj [(''data'', JObj [(''sysLoadPwr'', JInt 5), (''quota'', JObj [])])])
     = Inr [(''SN1_sysLoadPwr'',
         \<lparr>internal_unique_id = ''SN1_sysLoadPwr'', serial = ''SN1'', name = ''SN1_sysLoadPwr'',
          friendly_name = ''sysLoadPwr'', value' = JInt 5, unit = Some ''W'',
          description = ''Hausnetz'', icon = Some ''mdi:home-import-outline''\<rparr>)] \<and>
   get_sensors [(''data'', [''sysLoadPwr'']), (''JTS1_ENERGY_STREAM_REPORT'', []),
        (''JTS1_EMS_CHANGE_REPORT'', []), (''JTS1_BP_STA_REPORT'', []), (''JTS1_EMS_HEARTBEAT'', [])]
      (\<lambda>s. Inl JSONDecodeError) ''SN1''
      (JObj [(''data'', JObj [(''sysLoadPwr'', JInt 5), (''quota'', JObj [])])])
     = Inl KeyError"
  by (simp add: get_sensors_def get_sensors_data_def get_sensors_energy_stream_def quota_report_def
      get_sens_select_def get_unit_def get_description_def data_icon_def endswith_def
      suffix_to_prefix)

text \<open>
  C1, amended. Whenever one of the four report keys cannot be read from \<open>data.quota\<close>
  (the key is missing, or \<open>data\<close> or \<open>quota\<close> is), \<open>_get_sensors\<close> raises: the caller
  receives an exception and no collection. With an empty \<open>quota\<close> object and a top-level
  report that normalizes, the exception is \<open>KeyError\<close>.
\<close>

theorem get_sensors_missing_report:
  "(report \<in> set [''JTS1_ENERGY_STREAM_REPORT'', ''JTS1_EMS_CHANGE_REPORT'',
                  ''JTS1_BP_STA_REPORT'', ''JTS1_EMS_HEARTBEAT''] \<and>
    quota_report response report = Inl e
      \<longrightarrow> (\<exists>e'. get_sensors config json_loads sn response = Inl e')) \<and>
   (getitem response ''data'' = Inr response_data \<and> getitem response_data ''quota'' = Inr (JObj []) \<and>
    get_sensors_data config sn response = Inr sensors
      \<longrightarrow> get_sensors config json_loads sn response = Inl KeyError)"
proof (intro conjI impI)
  assume a: "report \<in> set [''JTS1_ENERGY_STREAM_REPORT'', ''JTS1_EMS_CHANGE_REPORT'',
                  ''JTS1_BP_STA_REPORT'', ''JTS1_EMS_HEARTBEAT''] \<and>
    quota_report response report = Inl e"
  then have q: "quota_report response report = Inl e" by simp
  from a consider
      "report = ''JTS1_ENERGY_STREAM_REPORT''" | "report = ''JTS1_EMS_CHANGE_REPORT''"
    | "report = ''JTS1_BP_STA_REPORT''" | "report = ''JTS1_EMS_HEARTBEAT''"
    by auto
  then show "\<exists>e'. get_sensors config json_loads sn response = Inl e'"
  proof cases
    case 1
    with q have "get_sensors_energy_stream config sn response s = Inl e" for s
      by (simp add: get_sensors_energy_stream_def)
    then show ?thesis
      by (auto simp: get_sensors_def exn_bind_def split: sum.splits)
  next
    case 2
    with q have "get_sensors_ems_change config sn response s = Inl e" for s
      by (simp add: get_sensors_ems_change_def)
    then show ?thesis
      by (auto simp: get_sensors_def exn_bind_def split: sum.splits)
  next
    case 3
    with q have "get_sensors_battery config json_loads sn response s = Inl e" for s
      by (simp add: get_sensors_battery_def)
    then show ?thesis
      by (auto simp: get_sensors_def exn_bind_def split: sum.splits)
  next
    case 4
    with q have "get_sensors_ems_heartbeat config sn response s = Inl e" for s
      by (simp add: get_sensors_ems_heartbeat_def)
    then show ?thesis
      by (auto simp: get_sensors_def exn_bind_def split: sum.splits)
  qed
next
  assume a: "getitem response ''data'' = Inr response_data \<and> getitem response_data ''quota'' = Inr (JObj []) \<and>
    get_sensors_data config sn response = Inr sensors"
  then have "quota_report response ''JTS1_ENERGY_STREAM_REPORT'' = Inl KeyError"
    by (simp add: quota_report_def)
  then have "get_sensors_energy_stream config sn response sensors = Inl KeyError"
    by (simp add: get_sensors_energy_stream_def)
  with a show "get_sensors config json_loads sn response = Inl KeyError"
    by (simp add: get_sensors_def)
qed

theorem get_sensors_missing_report_witness:
  "''JTS1_EMS_CHANGE_REPORT'' \<in> set [''JTS1_ENERGY_STREAM_REPORT'', ''JTS1_EMS_CHANGE_REPORT'',
                  ''JTS1_BP_STA_REPORT'', ''JTS1_EMS_HEARTBEAT''] \<and>
   quota_report (JObj [(''data'', JObj [(''quota'',
        JObj [(''JTS1_ENERGY_STREAM_REPORT'', JObj [])])])]) ''JTS1_EMS_CHANGE_REPORT''
     = Inl KeyError \<and>
   (\<exists>e'. get_sensors [(''data'', []), (''JTS1_ENERGY_STREAM_REPORT'', [])]
            (\<lambda>s. Inl JSONDecodeError) ''SN1''
            (JObj [(''data'', JObj [(''quota'',
               JObj [(''JTS1_ENERGY_STREAM_REPORT'', JObj [])])])]) = Inl e') \<and>
   getitem (JObj [(''data'', JObj [(''online'', JBool True), (''quota'', JObj [])])]) ''data''
     = Inr (JObj [(''online'', JBool True), (''quota'', JObj [])]) \<and>
   getitem (JObj [(''online'', JBool True), (''quota'', JObj [])]) ''quota'' = Inr (JObj []) \<and>
   get_sensors_data [(''data'', [])] ''SN1''
      (JObj [(''data'', JObj [(''online'', JBool True), (''quota'', JObj [])])]) = Inr [] \<and>
   get_sensors [(''data'', [])] (\<lambda>s. Inl JSONDecodeError) ''SN1''
      (JObj [(''data'', JObj [(''online'', JBool True), (''quota'', JObj [])])]) = Inl KeyError"
proof -
  let ?r1 = "JObj [(''data'', JObj [(''quota'', JObj [(''JTS1_ENERGY_STREAM_REPORT'', JObj [])])])]"
  let ?r2 = "JObj [(''data'', JObj [(''online'', JBool True), (''quota'', JObj [])])]"
  have m: "''JTS1_EMS_CHANGE_REPORT'' \<in> set [''JTS1_ENERGY_STREAM_REPORT'', ''JTS1_EMS_CHANGE_REPORT'',
                  ''JTS1_BP_STA_REPORT'', ''JTS1_EMS_HEARTBEAT'']"
    by simp
  have q: "quota_report ?r1 ''JTS1_EMS_CHANGE_REPORT'' = Inl KeyError"
    by (simp add: quota_report_def)
  have g1: "getitem ?r2 ''data'' = Inr (JObj [(''online'', JBool True), (''quota'', JObj [])])"
    by simp
  have g2: "getitem (JObj [(''online'', JBool True), (''quota'', JObj [])]) ''quota'' = Inr (JObj [])"
    by simp
  have g3: "get_sensors_data [(''data'', [])] ''SN1'' ?r2 = Inr []"
    by (simp add: get_sensors_data_def get_sens_select_def)
  note t1 = get_sensors_missing_report [where report = "''JTS1_EMS_CHANGE_REPORT''" and response = ?r1
      and e = KeyError and config = "[(''data'', []), (''JTS1_ENERGY_STREAM_REPORT'', [])]"
      and json_loads = "\<lambda>s. Inl JSONDecodeError" and sn = "''SN1''"]
  note t2 = get_sensors_missing_report [where response = ?r2
      and response_data = "JObj [(''online'', JBool True), (''quota'', JObj [])]"
      and config = "[(''data'', [])]" and sensors = "[]"
      and json_loads = "\<lambda>s. Inl JSONDecodeError" and sn = "''SN1''"]
  from t1 m q have c1: "\<exists>e'. get_sensors [(''data'', []), (''JTS1_ENERGY_STREAM_REPORT'', [])]
            (\<lambda>s. Inl JSONDecodeError) ''SN1'' ?r1 = Inl e'"
    by blast
  from t2 g1 g2 g3 have c2: "get_sensors [(''data'', [])] (\<lambda>s. Inl JSONDecodeError) ''SN1'' ?r2
      = Inl KeyError"
    by blast
  from m q c1 g1 g2 g3 c2 show ?thesis by blast
qed

subsection \<open>The change-event report\<close>

lemma dotstar_then_iff:
  "dotstar_then pat s \<longleftrightarrow> (\<exists>a b. s = a @ pat @ b \<and> CHR 0x0A \<notin> set a)"
proof (induction s)
  case Nil
  then show ?case by auto
next
  case (Cons c s)
  show ?case
  proof
    assume "dotstar_then pat (c # s)"
    then consider "prefix pat (c # s)" | "c \<noteq> CHR 0x0A" "dotstar_then pat s"
      by auto
    then show "\<exists>a b. c # s = a @ pat @ b \<and> CHR 0x0A \<notin> set a"
    proof cases
      case 1
      then obtain b where "c # s = pat @ b" by (auto simp: prefix_def)
      then have "c # s = [] @ pat @ b \<and> CHR 0x0A \<notin> set []" by simp
      then show ?thesis by blast
    next
      case 2
      with Cons.IH obtain a b where "s = a @ pat @ b" "CHR 0x0A \<notin> set a" by auto
      with 2 have "c # s = (c # a) @ pat @ b \<and> CHR 0x0A \<notin> set (c # a)" by simp
      then show ?thesis by blast
    qed
  next
    assume "\<exists>a b. c # s = a @ pat @ b \<and> CHR 0x0A \<notin> set a"
    then obtain a b where ab: "c # s = a @ pat @ b" "CHR 0x0A \<notin> set a" by auto
    show "dotstar_then pat (c # s)"
    proof (cases a)
      case Nil
      with ab have "prefix pat (c # s)" by (simp add: prefix_def)
      then show ?thesis by simp
    next
      case (Cons c' a')
      with ab have "c = c'" "s = a' @ pat @ b" "c \<noteq> CHR 0x0A" "CHR 0x0A \<notin> set a'" by auto
      with Cons.IH show ?thesis by auto
    qed
  qed
qed

lemma re_match_mppt_Code_iff:
  "re_match_mppt_Code key \<longleftrightarrow>
     (\<exists>a b. key = ''mppt'' @ a @ ''Code'' @ b \<and> CHR 0x0A \<notin> set a)"
proof
  assume "re_match_mppt_Code key"
  then have p: "prefix ''mppt'' key" and d: "dotstar_then ''Code'' (drop 4 key)"
    by (simp_all add: re_match_mppt_Code_def)
  from p obtain r where r: "key = ''mppt'' @ r" by (auto simp: prefix_def)
  with d have "dotstar_then ''Code'' r" by simp
  then obtain a b where "r = a @ ''Code'' @ b" "CHR 0x0A \<notin> set a"
    by (auto simp: dotstar_then_iff)
  with r show "\<exists>a b. key = ''mppt'' @ a @ ''Code'' @ b \<and> CHR 0x0A \<notin> set a" by blast
next
  assume "\<exists>a b. key = ''mppt'' @ a @ ''Code'' @ b \<and> CHR 0x0A \<notin> set a"
  then obtain a b where k: "key = ''mppt'' @ a @ ''Code'' @ b" and a: "CHR 0x0A \<notin> set a" by blast
  from a have "dotstar_then ''Code'' (a @ ''Code'' @ b)"
    unfolding dotstar_then_iff by blast
  with k show "re_match_mppt_Code key"
    by (simp add: re_match_mppt_Code_def)
qed

lemma ems_change_loop_eq:
  "ems_change_loop sn sens_select d data =
     dict_update data (map (ems_change_point sn) (filter (\<lambda>(key, v). key \<in> set sens_select) d))"
  by (induction d arbitrary: data) auto

lemma ems_change_point_key_inj:
  "fst (ems_change_point sn p) = fst (ems_change_point sn q) \<longleftrightarrow> fst p = fst q"
  by (cases p; cases q) (simp add: ems_change_point_def)

lemma distinct_ems_change_points:
  assumes "distinct (map fst d)"
  shows "distinct (map fst (map (ems_change_point sn) (filter P d)))"
proof -
  from assms have "distinct (map fst (filter P d))"
    by (simp add: distinct_map_filter)
  moreover have "map fst (map (ems_change_point sn) (filter P d))
      = map (\<lambda>k. sn @ ''_JTS1_EMS_CHANGE_REPORT_'' @ k) (map fst (filter P d))"
    by (simp add: ems_change_point_def case_prod_unfold comp_def)
  moreover have "inj (\<lambda>k. sn @ ''_JTS1_EMS_CHANGE_REPORT_'' @ k)"
    by (simp add: inj_def)
  ultimately show ?thesis
    by (simp only: distinct_map) (auto intro: inj_on_subset)
qed

text \<open>
  C7, as the spec states it, fails: a key that holds \<open>mppt\<close> followed by \<open>Code\<close>, but not
  at its start, is not surfaced (the static allow-list is empty here).
\<close>

theorem ems_change_containment_counterexample:
  "''XmpptCode'' = ''X'' @ ''mppt'' @ [] @ ''Code'' @ [] \<and>
   get_sensors_ems_change [(''JTS1_EMS_CHANGE_REPORT'', [])] ''SN1''
      (JObj [(''data'', JObj [(''quota'', JObj [(''JTS1_EMS_CHANGE_REPORT'',
        JObj [(''XmpptCode'', JInt 3)])])])]) []
     = Inr []"
  by (simp add: get_sensors_ems_change_def quota_report_def get_sens_select_def
      re_match_mppt_Code_def)

text \<open>
  C7, amended. For a change-event report \<open>d\<close> (a dict, so with distinct keys) whose
  static allow-list is \<open>sens_select\<close>, the report's contribution is exactly one DataPoint
  for every field of \<open>d\<close>, in order, whose key is in \<open>sens_select\<close> or matches the dynamic
  pattern; and a key matches the pattern exactly when it starts with \<open>mppt\<close> and \<open>Code\<close>
  occurs after it with no newline between the two.
\<close>

theorem ems_change_allow_list:
  assumes "quota_report response ''JTS1_EMS_CHANGE_REPORT'' = Inr (JObj d)"
    and "distinct (map fst d)"
    and "get_sens_select config ''JTS1_EMS_CHANGE_REPORT'' = Inr sens_select"
  shows "get_sensors_ems_change config sn response sensors =
           Inr (dict_update sensors
                  (map (ems_change_point sn)
                     (filter (\<lambda>(key, v). key \<in> set sens_select \<or> re_match_mppt_Code key) d))) \<and>
         (\<forall>key. re_match_mppt_Code key \<longleftrightarrow>
            (\<exists>a b. key = ''mppt'' @ a @ ''Code'' @ b \<and> CHR 0x0A \<notin> set a))"
proof
  let ?sel = "sens_select @ filter re_match_mppt_Code (map fst d)"
  have "filter (\<lambda>(key, v). key \<in> set ?sel) d
      = filter (\<lambda>(key, v). key \<in> set sens_select \<or> re_match_mppt_Code key) d"
    by (rule filter_cong) force+
  then have loop: "ems_change_loop sn ?sel d []
      = dict_update [] (map (ems_change_point sn)
          (filter (\<lambda>(key, v). key \<in> set sens_select \<or> re_match_mppt_Code key) d))"
    by (simp only: ems_change_loop_eq)
  have "distinct (map fst ([] @ map (ems_change_point sn)
          (filter (\<lambda>(key, v). key \<in> set sens_select \<or> re_match_mppt_Code key) d)))"
    unfolding append_Nil by (rule distinct_ems_change_points [OF assms(2)])
  then have "dict_update [] (map (ems_change_point sn)
          (filter (\<lambda>(key, v). key \<in> set sens_select \<or> re_match_mppt_Code key) d))
      = [] @ map (ems_change_point sn)
          (filter (\<lambda>(key, v). key \<in> set sens_select \<or> re_match_mppt_Code key) d)"
    by (rule dict_update_fresh)
  with loop have "ems_change_loop sn ?sel d []
      = map (ems_change_point sn)
          (filter (\<lambda>(key, v). key \<in> set sens_select \<or> re_match_mppt_Code key) d)"
    by simp
  with assms(1,3) show "get_sensors_ems_change config sn response sensors =
           Inr (dict_update sensors
                  (map (ems_change_point sn)
                     (filter (\<lambda>(key, v). key \<in> set sens_select \<or> re_match_mppt_Code key) d)))"
    by (simp add: get_sensors_ems_change_def Let_def)
  show "\<forall>key. re_match_mppt_Code key \<longleftrightarrow>
            (\<exists>a b. key = ''mppt'' @ a @ ''Code'' @ b \<and> CHR 0x0A \<notin> set a)"
    by (simp only: re_match_mppt_Code_iff) simp
qed

theorem ems_change_allow_list_witness:
  "quota_report (JObj [(''data'', JObj [(''quota'', JObj [(''JTS1_EMS_CHANGE_REPORT'',
        JObj [(''mppt1WarningCode'', JInt 0), (''bpSoc'', JInt 80), (''noise'', JInt 1)])])])])
      ''JTS1_EMS_CHANGE_REPORT''
     = Inr (JObj [(''mppt1WarningCode'', JInt 0), (''bpSoc'', JInt 80), (''noise'', JInt 1)]) \<and>
   distinct (map fst [(''mppt1WarningCode'', JInt 0), (''bpSoc'', JInt 80), (''noise'', JInt 1)]) \<and>
   get_sens_select [(''JTS1_EMS_CHANGE_REPORT'', [''bpSoc''])] ''JTS1_EMS_CHANGE_REPORT''
     = Inr [''bpSoc''] \<and>
   get_sensors_ems_change [(''JTS1_EMS_CHANGE_REPORT'', [''bpSoc''])] ''SN1''
      (JObj [(''data'', JObj [(''quota'', JObj [(''JTS1_EMS_CHANGE_REPORT'',
        JObj [(''mppt1WarningCode'', JInt 0), (''bpSoc'', JInt 80), (''noise'', JInt 1)])])])]) []
     = Inr [(''SN1_JTS1_EMS_CHANGE_REPORT_mppt1WarningCode'',
             \<lparr>internal_unique_id = ''SN1_JTS1_EMS_CHANGE_REPORT_mppt1WarningCode'',
              serial = ''SN1'', name = ''SN1_mppt1WarningCode'',
              friendly_name = ''mppt1WarningCode'', value' = JInt 0, unit = None,
              description = ''mppt1WarningCode'', icon = None\<rparr>),
            (''SN1_JTS1_EMS_CHANGE_REPORT_bpSoc'',
             \<lparr>internal_unique_id = ''SN1_JTS1_EMS_CHANGE_REPORT_bpSoc'',
              serial = ''SN1'', name = ''SN1_bpSoc'',
              friendly_name = ''bpSoc'', value' = JInt 80, unit = Some ''%'',
              description = ''Ladezustand der Batterie'', icon = None\<rparr>)]"
proof -
  let ?d = "[(''mppt1WarningCode'', JInt 0), (''bpSoc'', JInt 80), (''noise'', JInt 1)]"
  let ?response = "JObj [(''data'', JObj [(''quota'', JObj [(''JTS1_EMS_CHANGE_REPORT'', JObj ?d)])])]"
  let ?config = "[(''JTS1_EMS_CHANGE_REPORT'', [''bpSoc''])]"
  have q: "quota_report ?response ''JTS1_EMS_CHANGE_REPORT'' = Inr (JObj ?d)"
    by (simp add: quota_report_def)
  have dist: "distinct (map fst ?d)"
    by simp
  have sel: "get_sens_select ?config ''JTS1_EMS_CHANGE_REPORT'' = Inr [''bpSoc'']"
    by (simp add: get_sens_select_def)
  have m: "re_match_mppt_Code ''mppt1WarningCode''" "\<not> re_match_mppt_Code ''bpSoc''"
    "\<not> re_match_mppt_Code ''noise''"
    by (simp_all add: re_match_mppt_Code_def)
  from ems_change_allow_list [OF q dist sel, of "''SN1''" "[]"]
  have "get_sensors_ems_change ?config ''SN1'' ?response [] =
      Inr (dict_update [] (map (ems_change_point ''SN1'')
        (filter (\<lambda>(key, v). key \<in> set [''bpSoc''] \<or> re_match_mppt_Code key) ?d)))"
    by (rule conjunct1)
  then have "get_sensors_ems_change ?config ''SN1'' ?response [] =
      Inr [ems_change_point ''SN1'' (''mppt1WarningCode'', JInt 0),
           ems_change_point ''SN1'' (''bpSoc'', JInt 80)]"
    by (simp add: m ems_change_point_def)
  then have "get_sensors_ems_change ?config ''SN1'' ?response []
     = Inr [(''SN1_JTS1_EMS_CHANGE_REPORT_mppt1WarningCode'',
             \<lparr>internal_unique_id = ''SN1_JTS1_EMS_CHANGE_REPORT_mppt1WarningCode'',
              serial = ''SN1'', name = ''SN1_mppt1WarningCode'',
              friendly_name = ''mppt1WarningCode'', value' = JInt 0, unit = None,
              description = ''mppt1WarningCode'', icon = None\<rparr>),
            (''SN1_JTS1_EMS_CHANGE_REPORT_bpSoc'',
             \<lparr>internal_unique_id = ''SN1_JTS1_EMS_CHANGE_REPORT_bpSoc'',
              serial = ''SN1'', name = ''SN1_bpSoc'',
              friendly_name = ''bpSoc'', value' = JInt 80, unit = Some ''%'',
              description = ''Ladezustand der Batterie'', icon = None\<rparr>)]"
    by (simp add: ems_change_point_def get_unit_def get_description_def endswith_def startswith_def
        suffix_to_prefix str_in_def sublist_code)
  with q dist sel show ?thesis by blast
qed

subsection \<open>The heartbeat report\<close>

lemma heartbeat_loop_writes:
  "\<exists>ws k'. heartbeat_loop sn sens_select d (data, k) = (dict_update data ws, k')"
proof (induction d arbitrary: data k)
  case Nil
  have "heartbeat_loop sn sens_select [] (data, k) = (dict_update data [], k)" by simp
  then show ?case by blast
next
  case (Cons f d)
  obtain key v where f: "f = (key, v)" by (cases f)
  show ?case
  proof (cases "key \<in> set sens_select")
    case True
    let ?p = "(sn @ ''_JTS1_EMS_HEARTBEAT_'' @ key,
               \<lparr>internal_unique_id = sn @ ''_JTS1_EMS_HEARTBEAT_'' @ key, serial = sn,
                name = sn @ ''_'' @ key, friendly_name = key, value' = v, unit = get_unit key,
                description = get_description key, icon = None\<rparr>)"
    from Cons.IH [of "AList.update (fst ?p) (snd ?p) data" key]
    obtain ws k' where "heartbeat_loop sn sens_select d (AList.update (fst ?p) (snd ?p) data, key)
        = (dict_update (AList.update (fst ?p) (snd ?p) data) ws, k')"
      by blast
    with True have "heartbeat_loop sn sens_select (f # d) (data, k) = (dict_update data (?p # ws), k')"
      by (simp add: f)
    then show ?thesis by blast
  next
    case False
    from Cons.IH [of data key]
    obtain ws k' where "heartbeat_loop sn sens_select d (data, key) = (dict_update data ws, k')"
      by blast
    with False have "heartbeat_loop sn sens_select (f # d) (data, k) = (dict_update data ws, k')"
      by (simp add: f)
    then show ?thesis by blast
  qed
qed

lemma phase_fields_loop_writes:
  "\<exists>ws k'. phase_fields_loop sn phase d (data, k) = (dict_update data ws, k')"
proof (induction d arbitrary: data k)
  case Nil
  have "phase_fields_loop sn phase [] (data, k) = (dict_update data [], k)" by simp
  then show ?case by blast
next
  case (Cons f d)
  obtain key v where f: "f = (key, v)" by (cases f)
  let ?p = "(sn @ ''_JTS1_EMS_HEARTBEAT_'' @ phase @ ''_'' @ key,
          \<lparr>internal_unique_id = sn @ ''_JTS1_EMS_HEARTBEAT_'' @ phase @ ''_'' @ key, serial = sn,
           name = sn @ ''_'' @ phase @ ''_'' @ key, friendly_name = phase @ ''_'' @ key,
           value' = v, unit = get_unit key, description = get_description key,
           icon = None\<rparr>)"
  from Cons.IH [of "AList.update (fst ?p) (snd ?p) data" key]
  obtain ws k' where "phase_fields_loop sn phase d (AList.update (fst ?p) (snd ?p) data, key)
      = (dict_update (AList.update (fst ?p) (snd ?p) data) ws, k')"
    by blast
  then have "phase_fields_loop sn phase (f # d) (data, k) = (dict_update data (?p # ws), k')"
    by (simp add: f)
  then show ?case by blast
qed

lemma phases_loop_writes:
  "phases_loop sn d phases (dict_update data0 ws0, k) = Inr st \<Longrightarrow>
   \<exists>ws k'. st = (dict_update data0 ws, k')"
proof (induction phases arbitrary: ws0 k)
  case Nil
  then show ?case by auto
next
  case (Cons phase phases)
  from Cons.prems obtain d_phase d_phase_items where
      "phases_loop sn d phases (phase_fields_loop sn phase d_phase_items (dict_update data0 ws0, k)) = Inr st"
    by (auto simp: exn_bind_def split: sum.splits)
  moreover obtain ws1 k1 where
      "phase_fields_loop sn phase d_phase_items (dict_update data0 ws0, k)
         = (dict_update (dict_update data0 ws0) ws1, k1)"
    using phase_fields_loop_writes by blast
  ultimately have "phases_loop sn d phases (dict_update data0 (ws0 @ ws1), k1) = Inr st"
    by (simp add: dict_update_append)
  then show ?case by (rule Cons.IH)
qed

lemma pv_power_Cons:
  "pv_power ((key, v) # d_pv) =
     (if key = ''pwr'' then (case num_of v of Inr n \<Rightarrow> rat_of_pynum n | Inl e \<Rightarrow> 0)
      else pv_power d_pv)"
  by (simp add: pv_power_def)

lemma pv_power_no_pwr: "''pwr'' \<notin> fst ` set d_pv \<Longrightarrow> pv_power d_pv = 0"
  by (simp add: pv_power_def map_of_eq_None_iff [THEN iffD2])

lemma pv_fields_loop_eq:
  assumes "distinct (map fst d_pv)"
    and "\<forall>v. (''pwr'', v) \<in> set d_pv \<longrightarrow> (\<exists>n. num_of v = Inr n)"
  shows "\<exists>k'. pv_fields_loop sn mpptpv d_pv (data, k, s)
           = Inr (dict_update data (map (pv_point sn mpptpv) d_pv), k', s + pv_power d_pv)"
  using assms
proof (induction d_pv arbitrary: data k s)
  case Nil
  then show ?case by (simp add: pv_power_def)
next
  case (Cons f d_pv)
  obtain key v where f: "f = (key, v)" by (cases f)
  from Cons.prems f have dist: "distinct (map fst d_pv)" and fresh: "key \<notin> fst ` set d_pv"
    by auto
  from Cons.prems have nums: "\<forall>v. (''pwr'', v) \<in> set d_pv \<longrightarrow> (\<exists>n. num_of v = Inr n)"
    by auto
  let ?data1 = "AList.update (fst (pv_point sn mpptpv (key, v))) (snd (pv_point sn mpptpv (key, v))) data"
  show ?case
  proof (cases "key = ''pwr''")
    case True
    with Cons.prems f obtain n where n: "num_of v = Inr n" by auto
    from True fresh have zero: "pv_power d_pv = 0" by (simp add: pv_power_no_pwr)
    from Cons.IH [OF dist nums, of ?data1 key "s + rat_of_pynum n"]
    obtain k' where "pv_fields_loop sn mpptpv d_pv (?data1, key, s + rat_of_pynum n)
        = Inr (dict_update ?data1 (map (pv_point sn mpptpv) d_pv), k', s + rat_of_pynum n + pv_power d_pv)"
      by blast
    with True n zero have "pv_fields_loop sn mpptpv (f # d_pv) (data, k, s)
        = Inr (dict_update data (map (pv_point sn mpptpv) (f # d_pv)), k', s + pv_power (f # d_pv))"
      by (simp add: f pv_power_Cons Let_def)
    then show ?thesis by blast
  next
    case False
    from Cons.IH [OF dist nums, of ?data1 key s]
    obtain k' where "pv_fields_loop sn mpptpv d_pv (?data1, key, s)
        = Inr (dict_update ?data1 (map (pv_point sn mpptpv) d_pv), k', s + pv_power d_pv)"
      by blast
    with False have "pv_fields_loop sn mpptpv (f # d_pv) (data, k, s)
        = Inr (dict_update data (map (pv_point sn mpptpv) (f # d_pv)), k', s + pv_power (f # d_pv))"
      by (simp add: f pv_power_Cons Let_def)
    then show ?thesis by blast
  qed
qed

lemma pv_strings_loop_eq:
  assumes "\<forall>d_pv\<in>set pvs. distinct (map fst d_pv) \<and>
             (\<forall>v. (''pwr'', v) \<in> set d_pv \<longrightarrow> (\<exists>n. num_of v = Inr n))"
  shows "\<exists>k'. pv_strings_loop sn (JArr (map JObj (pre @ pvs))) (length pre)
             (map (\<lambda>i. ''mpptPv'' @ string_of_nat i) [j..<j + length pvs]) (data, k, s)
           = Inr (dict_update data (pv_points sn j pvs), k', s + sum_list (map pv_power pvs))"
  using assms
proof (induction pvs arbitrary: pre j data k s)
  case Nil
  then show ?case by simp
next
  case (Cons d_pv pvs)
  from Cons.prems have wf: "distinct (map fst d_pv)"
      "\<forall>v. (''pwr'', v) \<in> set d_pv \<longrightarrow> (\<exists>n. num_of v = Inr n)"
    and rest: "\<forall>d_pv\<in>set pvs. distinct (map fst d_pv) \<and>
             (\<forall>v. (''pwr'', v) \<in> set d_pv \<longrightarrow> (\<exists>n. num_of v = Inr n))"
    by auto
  have names: "[j..<j + length (d_pv # pvs)] = j # [j + 1..<j + 1 + length pvs]"
    by (simp add: upt_rec)
  have idx: "getindex (JArr (map JObj (pre @ d_pv # pvs))) (length pre) = Inr (JObj d_pv)"
    by (simp add: nth_append)
  from pv_fields_loop_eq [OF wf, of sn "''mpptPv'' @ string_of_nat j" data k s]
  obtain k1 where one: "pv_fields_loop sn (''mpptPv'' @ string_of_nat j) d_pv (data, k, s)
      = Inr (dict_update data (map (pv_point sn (''mpptPv'' @ string_of_nat j)) d_pv), k1,
             s + pv_power d_pv)"
    by blast
  from Cons.IH [OF rest, of "pre @ [d_pv]" "j + 1"
      "dict_update data (map (pv_point sn (''mpptPv'' @ string_of_nat j)) d_pv)" k1 "s + pv_power d_pv"]
  obtain k' where "pv_strings_loop sn (JArr (map JObj (pre @ d_pv # pvs))) (length pre + 1)
             (map (\<lambda>i. ''mpptPv'' @ string_of_nat i) [j + 1..<j + 1 + length pvs])
             (dict_update data (map (pv_point sn (''mpptPv'' @ string_of_nat j)) d_pv), k1,
              s + pv_power d_pv)
           = Inr (dict_update (dict_update data (map (pv_point sn (''mpptPv'' @ string_of_nat j)) d_pv))
                    (pv_points sn (j + 1) pvs), k',
                  s + pv_power d_pv + sum_list (map pv_power pvs))"
    by auto
  with idx one have "pv_strings_loop sn (JArr (map JObj (pre @ d_pv # pvs))) (length pre)
             (map (\<lambda>i. ''mpptPv'' @ string_of_nat i) [j..<j + length (d_pv # pvs)]) (data, k, s)
           = Inr (dict_update data (pv_points sn j (d_pv # pvs)), k',
                  s + sum_list (map pv_power (d_pv # pvs)))"
    by (simp only: names list.map pv_strings_loop.simps exn_bind_Inr dict_items.simps
        pv_points.simps dict_update_append sum_list.Cons add.assoc)
  then show ?case by blast
qed

lemma phases_loop_ok:
  "\<forall>phase\<in>set phases. \<exists>d_phase. map_of d phase = Some (JObj d_phase) \<Longrightarrow>
   \<exists>st'. phases_loop sn (JObj d) phases st = Inr st'"
proof (induction phases arbitrary: st)
  case Nil
  then show ?case by simp
next
  case (Cons phase phases)
  then obtain d_phase where "map_of d phase = Some (JObj d_phase)" by auto
  with Cons show ?case by simp
qed

lemma mppt_heartbeat_eq:
  assumes hb: "map_of d ''mpptHeartBeat'' = Some (JArr (hb0 # hb_rest))"
    and pv: "getitem hb0 ''mpptPv'' = Inr (JArr (map JObj pvs))"
    and wf: "\<forall>d_pv\<in>set pvs. distinct (map fst d_pv) \<and>
             (\<forall>v. (''pwr'', v) \<in> set d_pv \<longrightarrow> (\<exists>n. num_of v = Inr n))"
  shows "\<exists>key. mppt_heartbeat sn (JObj d) (dict_update [] ws, k)
           = Inr (dict_update [] (ws @ pv_points sn 1 pvs @
                    [pv_total_point sn key (sum_list (map pv_power pvs))]))"
proof -
  from pv_strings_loop_eq [OF wf, of sn "[]" 1 "dict_update [] ws" k 0]
  obtain k' where loop: "pv_strings_loop sn (JArr (map JObj pvs)) 0
             (map (\<lambda>i. ''mpptPv'' @ string_of_nat i) [1..<1 + length pvs]) (dict_update [] ws, k, 0)
           = Inr (dict_update (dict_update [] ws) (pv_points sn 1 pvs), k',
                  0 + sum_list (map pv_power pvs))"
    by auto
  have range: "[1..<length pvs + 1] = [1..<1 + length pvs]"
    by simp
  from hb pv loop have "mppt_heartbeat sn (JObj d) (dict_update [] ws, k)
           = Inr (dict_update [] (ws @ pv_points sn 1 pvs @
                    [pv_total_point sn k' (sum_list (map pv_power pvs))]))"
    by (simp add: mppt_heartbeat_def Let_def range dict_update_append del: upt_Suc)
  then show ?thesis by blast
qed

lemma pv_points_append:
  "pv_points sn i (xs @ ys) = pv_points sn i xs @ pv_points sn (i + length xs) ys"
  by (induction xs arbitrary: i) auto

lemma pv_points_keys:
  "k \<in> fst ` set (pv_points sn i pvs) \<Longrightarrow>
   \<exists>j key. i \<le> j \<and>
     k = sn @ ''_JTS1_EMS_HEARTBEAT_mpptHeartBeat_'' @ (''mpptPv'' @ string_of_nat j) @ ''_'' @ key"
proof (induction pvs arbitrary: i)
  case Nil
  then show ?case by simp
next
  case (Cons d_pv pvs)
  from Cons.prems consider
      "k \<in> fst ` set (map (pv_point sn (''mpptPv'' @ string_of_nat i)) d_pv)"
    | "k \<in> fst ` set (pv_points sn (i + 1) pvs)"
    by auto
  then show ?case
  proof cases
    case 1
    then obtain key where
        "k = sn @ ''_JTS1_EMS_HEARTBEAT_mpptHeartBeat_'' @ (''mpptPv'' @ string_of_nat i) @ ''_'' @ key"
      by (auto simp: pv_point_def)
    then show ?thesis by blast
  next
    case 2
    from Cons.IH [OF this] obtain j key where "i + 1 \<le> j"
        "k = sn @ ''_JTS1_EMS_HEARTBEAT_mpptHeartBeat_'' @ (''mpptPv'' @ string_of_nat j) @ ''_'' @ key"
      by blast
    then have "i \<le> j \<and>
        k = sn @ ''_JTS1_EMS_HEARTBEAT_mpptHeartBeat_'' @ (''mpptPv'' @ string_of_nat j) @ ''_'' @ key"
      by simp
    then show ?thesis by blast
  qed
qed

lemma pv_key_inj:
  assumes "sn @ ''_JTS1_EMS_HEARTBEAT_mpptHeartBeat_'' @ (''mpptPv'' @ string_of_nat i) @ ''_'' @ key
         = sn @ ''_JTS1_EMS_HEARTBEAT_mpptHeartBeat_'' @ (''mpptPv'' @ string_of_nat j) @ ''_'' @ key'"
  shows "i = j \<and> key = key'"
proof -
  from assms have "string_of_nat i @ CHR ''_'' # key = string_of_nat j @ CHR ''_'' # key'"
    by simp
  with string_of_nat_no_sep [of i] string_of_nat_no_sep [of j]
  have "string_of_nat i = string_of_nat j \<and> key = key'"
    by (intro append_sep_eq)
  then show ?thesis
    by (simp add: string_of_nat_inj)
qed

lemma pv_key_not_total:
  "sn @ ''_JTS1_EMS_HEARTBEAT_mpptHeartBeat_'' @ (''mpptPv'' @ string_of_nat i) @ ''_'' @ key
     \<noteq> sn @ ''_JTS1_EMS_HEARTBEAT_mpptHeartBeat_'' @ ''mpptPv_pwrTotal''"
proof
  assume "sn @ ''_JTS1_EMS_HEARTBEAT_mpptHeartBeat_'' @ (''mpptPv'' @ string_of_nat i) @ ''_'' @ key
     = sn @ ''_JTS1_EMS_HEARTBEAT_mpptHeartBeat_'' @ ''mpptPv_pwrTotal''"
  then have eq: "string_of_nat i @ CHR ''_'' # key = ''_pwrTotal''"
    by simp
  obtain c cs where "string_of_nat i = c # cs"
    using string_of_nat_ne [of i] by (cases "string_of_nat i") auto
  with eq string_of_nat_no_sep [of i] show False
    by auto
qed

lemma pv_point_lookup:
  assumes dist: "distinct (map fst d_pv)" and field: "(key, v) \<in> set d_pv"
  shows "map_of (dict_update sensors (dict_update []
            (ws @ pv_points sn i (pre @ d_pv # post) @ [pv_total_point sn k s])))
           (sn @ ''_JTS1_EMS_HEARTBEAT_mpptHeartBeat_'' @ (''mpptPv'' @ string_of_nat (i + length pre))
              @ ''_'' @ key)
         = Some (snd (pv_point sn (''mpptPv'' @ string_of_nat (i + length pre)) (key, v)))"
proof -
  let ?nm = "''mpptPv'' @ string_of_nat (i + length pre)"
  let ?k = "sn @ ''_JTS1_EMS_HEARTBEAT_mpptHeartBeat_'' @ ?nm @ ''_'' @ key"
  from field obtain xs ys where xy: "d_pv = xs @ (key, v) # ys"
    by (meson split_list)
  with dist have fresh: "key \<notin> fst ` set ys" by auto
  let ?w1 = "ws @ pv_points sn i pre @ map (pv_point sn ?nm) xs"
  let ?w2 = "map (pv_point sn ?nm) ys @ pv_points sn (i + length pre + 1) post
      @ [pv_total_point sn k s]"
  have split: "ws @ pv_points sn i (pre @ d_pv # post) @ [pv_total_point sn k s]
      = ?w1 @ (?k, snd (pv_point sn ?nm (key, v))) # ?w2"
    by (simp add: pv_points_append xy pv_point_def)
  have a: "?k \<notin> fst ` set (map (pv_point sn ?nm) ys)"
    using fresh by (force simp: pv_point_def)
  have b: "?k \<notin> fst ` set (pv_points sn (i + length pre + 1) post)"
  proof
    assume "?k \<in> fst ` set (pv_points sn (i + length pre + 1) post)"
    from pv_points_keys [OF this] obtain j key' where j: "i + length pre + 1 \<le> j"
        and "?k = sn @ ''_JTS1_EMS_HEARTBEAT_mpptHeartBeat_'' @ (''mpptPv'' @ string_of_nat j) @ ''_'' @ key'"
      by blast
    from pv_key_inj [OF this(2)] j show False by simp
  qed
  have c: "?k \<noteq> fst (pv_total_point sn k s)"
    using pv_key_not_total [of sn "i + length pre" key] by (simp add: pv_total_point_def)
  from a b c have "?k \<notin> fst ` set ?w2" by auto
  then show ?thesis
    unfolding split by (rule map_of_dict_update_write)
qed



text \<open>The scenario in full: the five data points the normalizer returns for it.\<close>

lemma heartbeat_scenario:
  "get_sensors_ems_heartbeat [(''JTS1_EMS_HEARTBEAT'', [])] ''SN1''
      (JObj [(''data'', JObj [(''quota'', JObj [(''JTS1_EMS_HEARTBEAT'',
         JObj [(''mpptHeartBeat'', JArr [JObj [(''mpptPv'',
           JArr [JObj [(''vol'', JInt 400), (''pwr'', JInt 100)],
                 JObj [(''pwr'', JInt 150)], JObj [(''pwr'', JInt 50)]])]])])])])]) []
   = Inr [pv_point ''SN1'' ''mpptPv1'' (''vol'', JInt 400),
          pv_point ''SN1'' ''mpptPv1'' (''pwr'', JInt 100),
          pv_point ''SN1'' ''mpptPv2'' (''pwr'', JInt 150),
          pv_point ''SN1'' ''mpptPv3'' (''pwr'', JInt 50),
          pv_total_point ''SN1'' ''pwr'' 300]"
  by (simp add: get_sensors_ems_heartbeat_def quota_report_def get_sens_select_def
      mppt_heartbeat_def Let_def string_of_nat_1_2_3 upt_rec pv_point_def pv_total_point_def)

subsection \<open>The battery-status report\<close>

lemma rat_of_py_add: "rat_of_pynum (py_add a b) = rat_of_pynum a + rat_of_pynum b"
  by (cases a; cases b) simp_all

lemma sum_loop_eq:
  "\<forall>t\<in>set xs. \<exists>n. num_of t = Inr n \<Longrightarrow>
   \<exists>m. sum_loop xs acc = Inr m \<and>
       rat_of_pynum m = rat_of_pynum acc + sum_list (map rat_of_json xs)"
proof (induction xs arbitrary: acc)
  case Nil
  then show ?case by simp
next
  case (Cons t xs)
  then obtain n where n: "num_of t = Inr n" by auto
  from Cons.prems have "\<forall>t\<in>set xs. \<exists>n. num_of t = Inr n" by simp
  from Cons.IH [OF this, of "py_add acc n"]
  obtain m where "sum_loop xs (py_add acc n) = Inr m"
      "rat_of_pynum m = rat_of_pynum (py_add acc n) + sum_list (map rat_of_json xs)"
    by blast
  moreover from n have "rat_of_json t = rat_of_pynum n"
    by (simp add: rat_of_json_def)
  ultimately show ?case
    using n by (simp add: rat_of_py_add)
qed

lemma mean_temperature_eq:
  assumes "temps \<noteq> []" and "\<forall>t\<in>set temps. \<exists>n. num_of t = Inr n"
  shows "mean_temperature (JArr temps) = Inr (JFloat (cell_mean temps))"
proof -
  from sum_loop_eq [OF assms(2), of "PyInt 0"]
  obtain m where "sum_loop temps (PyInt 0) = Inr m"
      "rat_of_pynum m = sum_list (map rat_of_json temps)"
    by auto
  with assms(1) show ?thesis
    by (simp add: mean_temperature_def cell_mean_def)
qed

lemma battery_fields_loop_eq:
  "battery_fields_loop sn bat_sens_select bat nm d_bat data =
     dict_update data (map (battery_point sn bat nm)
        (filter (\<lambda>(key, v). key \<in> set bat_sens_select) d_bat))"
  by (induction d_bat arbitrary: data) auto

lemma battery_loop_eq:
  assumes "\<forall>(bat, s, d_bat)\<in>set packs.
      map_of d bat = Some (JStr s) \<and> json_loads s = Inr (JObj d_bat) \<and>
      (\<exists>temps. map_of d_bat ''bpTemp'' = Some (JArr temps) \<and> temps \<noteq> [] \<and>
         (\<forall>t\<in>set temps. \<exists>n. num_of t = Inr n))"
  shows "battery_loop json_loads sn bat_sens_select (JObj d) ibat (map fst packs) data =
     Inr (dict_update data (battery_points sn bat_sens_select (ibat + 1)
            (map (\<lambda>(bat, s, d_bat). (bat, d_bat)) packs)))"
  using assms
proof (induction packs arbitrary: ibat data)
  case Nil
  then show ?case by simp
next
  case (Cons pack packs)
  obtain bat s d_bat where pack: "pack = (bat, s, d_bat)" by (cases pack)
  from Cons.prems pack obtain temps where
      enc: "map_of d bat = Some (JStr s)" and parsed: "json_loads s = Inr (JObj d_bat)"
      and temp: "map_of d_bat ''bpTemp'' = Some (JArr temps)"
      and ne: "temps \<noteq> []" and nums: "\<forall>t\<in>set temps. \<exists>n. num_of t = Inr n"
    by auto
  from Cons.prems have rest: "\<forall>(bat, s, d_bat)\<in>set packs.
      map_of d bat = Some (JStr s) \<and> json_loads s = Inr (JObj d_bat) \<and>
      (\<exists>temps. map_of d_bat ''bpTemp'' = Some (JArr temps) \<and> temps \<noteq> [] \<and>
         (\<forall>t\<in>set temps. \<exists>n. num_of t = Inr n))"
    by simp
  have mean: "mean_temperature (JArr temps) = Inr (pack_mean d_bat)"
    by (simp add: mean_temperature_eq [OF ne nums] pack_mean_def temp)
  show ?case
    by (simp add: pack enc parsed temp mean Let_def battery_fields_loop_eq Cons.IH [OF rest]
        dict_update_append)
qed

lemma battery_points_append:
  "battery_points sn bat_sens_select i (xs @ ys) =
     battery_points sn bat_sens_select i xs @ battery_points sn bat_sens_select (i + length xs) ys"
  by (induction xs arbitrary: i) auto

lemma battery_points_keys:
  "k \<in> fst ` set (battery_points sn bat_sens_select i packs) \<Longrightarrow>
   \<exists>bat d_bat key. (bat, d_bat) \<in> set packs \<and> k = sn @ ''_JTS1_BP_STA_REPORT_'' @ bat @ ''_'' @ key"
proof (induction packs arbitrary: i)
  case Nil
  then show ?case by simp
next
  case (Cons pack packs)
  obtain bat d_bat where pack: "pack = (bat, d_bat)" by (cases pack)
  from Cons.prems pack consider
      "k \<in> fst ` set (map (battery_point sn bat (''bpack'' @ string_of_nat i @ ''_''))
            (filter (\<lambda>(key, v). key \<in> set bat_sens_select) d_bat))"
    | "k = fst (battery_mean_point sn bat (''bpack'' @ string_of_nat i @ ''_'') (pack_mean d_bat))"
    | "k \<in> fst ` set (battery_points sn bat_sens_select (i + 1) packs)"
    by auto
  then show ?case
  proof cases
    case 1
    then obtain key where "k = sn @ ''_JTS1_BP_STA_REPORT_'' @ bat @ ''_'' @ key"
      by (auto simp: battery_point_def)
    with pack show ?thesis by auto
  next
    case 2
    then have "k = sn @ ''_JTS1_BP_STA_REPORT_'' @ bat @ ''_'' @ ''bpTemp''"
      by (simp add: battery_mean_point_def)
    with pack show ?thesis by auto
  next
    case 3
    from Cons.IH [OF this] show ?thesis by auto
  qed
qed

lemma battery_key_inj:
  assumes "sn @ ''_JTS1_BP_STA_REPORT_'' @ bat @ ''_'' @ key
         = sn @ ''_JTS1_BP_STA_REPORT_'' @ bat' @ ''_'' @ key'"
    and "CHR ''_'' \<notin> set bat" and "CHR ''_'' \<notin> set bat'"
  shows "bat = bat' \<and> key = key'"
proof -
  from assms(1) have "bat @ CHR ''_'' # key = bat' @ CHR ''_'' # key'"
    by simp
  with assms(2,3) show ?thesis
    by (intro append_sep_eq)
qed

lemma battery_post_fresh:
  assumes H: "\<forall>(b, db)\<in>set (pre @ (bat, d_bat) # post). CHR ''_'' \<notin> set b"
    and D: "distinct (map fst (pre @ (bat, d_bat) # post))"
  shows "sn @ ''_JTS1_BP_STA_REPORT_'' @ bat @ ''_'' @ key
           \<notin> fst ` set (battery_points sn bat_sens_select i post)"
proof
  assume "sn @ ''_JTS1_BP_STA_REPORT_'' @ bat @ ''_'' @ key
           \<in> fst ` set (battery_points sn bat_sens_select i post)"
  from battery_points_keys [OF this]
  obtain bat' d_bat' key' where in_post: "(bat', d_bat') \<in> set post"
      and eq: "sn @ ''_JTS1_BP_STA_REPORT_'' @ bat @ ''_'' @ key
             = sn @ ''_JTS1_BP_STA_REPORT_'' @ bat' @ ''_'' @ key'"
    by blast
  from H in_post have "CHR ''_'' \<notin> set bat" "CHR ''_'' \<notin> set bat'" by auto
  with eq have "bat = bat'" using battery_key_inj by blast
  with in_post have "bat \<in> fst ` set post" by force
  with D show False by auto
qed

lemma battery_mean_lookup:
  assumes H: "\<forall>(b, db)\<in>set (pre @ (bat, d_bat) # post). CHR ''_'' \<notin> set b"
    and D: "distinct (map fst (pre @ (bat, d_bat) # post))"
  shows "map_of (dict_update sensors (dict_update []
            (battery_points sn bat_sens_select i (pre @ (bat, d_bat) # post))))
           (sn @ ''_JTS1_BP_STA_REPORT_'' @ bat @ ''_'' @ ''bpTemp'')
         = Some (snd (battery_mean_point sn bat (''bpack'' @ string_of_nat (i + length pre) @ ''_'')
                        (pack_mean d_bat)))"
proof -
  let ?nm = "''bpack'' @ string_of_nat (i + length pre) @ ''_''"
  let ?k = "sn @ ''_JTS1_BP_STA_REPORT_'' @ bat @ ''_'' @ ''bpTemp''"
  let ?w1 = "battery_points sn bat_sens_select i pre @
      map (battery_point sn bat ?nm) (filter (\<lambda>(key, v). key \<in> set bat_sens_select) d_bat)"
  let ?w2 = "battery_points sn bat_sens_select (i + length pre + 1) post"
  have split: "battery_points sn bat_sens_select i (pre @ (bat, d_bat) # post)
      = ?w1 @ (?k, snd (battery_mean_point sn bat ?nm (pack_mean d_bat))) # ?w2"
    by (simp add: battery_points_append battery_mean_point_def)
  have "?k \<notin> fst ` set ?w2"
    by (rule battery_post_fresh [OF H D])
  then show ?thesis
    unfolding split by (rule map_of_dict_update_write)
qed

lemma battery_field_lookup:
  assumes H: "\<forall>(b, db)\<in>set (pre @ (bat, d_bat) # post). CHR ''_'' \<notin> set b"
    and D: "distinct (map fst (pre @ (bat, d_bat) # post))"
    and dist: "distinct (map fst d_bat)"
    and field: "(key, v) \<in> set d_bat" "key \<in> set bat_sens_select" "key \<noteq> ''bpTemp''"
  shows "map_of (dict_update sensors (dict_update []
            (battery_points sn bat_sens_select i (pre @ (bat, d_bat) # post))))
           (sn @ ''_JTS1_BP_STA_REPORT_'' @ bat @ ''_'' @ key)
         = Some (snd (battery_point sn bat (''bpack'' @ string_of_nat (i + length pre) @ ''_'')
                        (key, v)))"
proof -
  let ?nm = "''bpack'' @ string_of_nat (i + length pre) @ ''_''"
  let ?k = "sn @ ''_JTS1_BP_STA_REPORT_'' @ bat @ ''_'' @ key"
  let ?sel = "filter (\<lambda>(key, v). key \<in> set bat_sens_select) d_bat"
  from field have "(key, v) \<in> set ?sel" by simp
  then obtain xs ys where xy: "?sel = xs @ (key, v) # ys"
    by (meson split_list)
  from dist have "distinct (map fst ?sel)" by (simp add: distinct_map_filter)
  with xy have fresh: "key \<notin> fst ` set ys" by auto
  let ?w1 = "battery_points sn bat_sens_select i pre @ map (battery_point sn bat ?nm) xs"
  let ?w2 = "map (battery_point sn bat ?nm) ys @
      [battery_mean_point sn bat ?nm (pack_mean d_bat)] @
      battery_points sn bat_sens_select (i + length pre + 1) post"
  have split: "battery_points sn bat_sens_select i (pre @ (bat, d_bat) # post)
      = ?w1 @ (?k, snd (battery_point sn bat ?nm (key, v))) # ?w2"
    by (simp add: battery_points_append xy battery_point_def)
  have a: "?k \<notin> fst ` set (map (battery_point sn bat ?nm) ys)"
    using fresh by (force simp: battery_point_def)
  have b: "?k \<noteq> fst (battery_mean_point sn bat ?nm (pack_mean d_bat))"
    using field(3) by (simp add: battery_mean_point_def)
  have c: "?k \<notin> fst ` set (battery_points sn bat_sens_select (i + length pre + 1) post)"
    by (rule battery_post_fresh [OF H D])
  from a b c have "?k \<notin> fst ` set ?w2" by auto
  then show ?thesis
    unfolding split by (rule map_of_dict_update_write)
qed

lemma filter_keys: "filter P (map fst d) = map fst (filter (\<lambda>(key, v). P key) d)"
  by (induction d) auto



text \<open>The scenario in full: the four data points the normalizer returns for it.\<close>

lemma battery_scenario:
  "get_sensors_battery [(''JTS1_BP_STA_REPORT'', [''bpSoc''])]
     (\<lambda>s. if s = ''{\"bpSoc\": 80, \"bpTemp\": [20, 22, 24]}''
          then Inr (JObj [(''bpSoc'', JInt 80), (''bpTemp'', JArr [JInt 20, JInt 22, JInt 24])])
          else if s = ''{\"bpSoc\": 81, \"bpTemp\": [20, 22, 24]}''
          then Inr (JObj [(''bpSoc'', JInt 81), (''bpTemp'', JArr [JInt 20, JInt 22, JInt 24])])
          else Inl JSONDecodeError)
     ''SN1''
     (JObj [(''data'', JObj [(''quota'', JObj [(''JTS1_BP_STA_REPORT'',
        JObj [(''bpPwr'', JInt 5),
              (''HJ31ZDH4ZF7E0001'', JStr ''{\"bpSoc\": 80, \"bpTemp\": [20, 22, 24]}''),
              (''HJ31ZDH4ZF7E0002'', JStr ''{\"bpSoc\": 81, \"bpTemp\": [20, 22, 24]}'')])])])]) []
   = Inr [battery_point ''SN1'' ''HJ31ZDH4ZF7E0001'' ''bpack1_'' (''bpSoc'', JInt 80),
          battery_mean_point ''SN1'' ''HJ31ZDH4ZF7E0001'' ''bpack1_'' (JFloat 22),
          battery_point ''SN1'' ''HJ31ZDH4ZF7E0002'' ''bpack2_'' (''bpSoc'', JInt 81),
          battery_mean_point ''SN1'' ''HJ31ZDH4ZF7E0002'' ''bpack2_'' (JFloat 22)]"
  by (simp add: get_sensors_battery_def quota_report_def get_sens_select_def Let_def
      mean_temperature_def string_of_nat_1_2_3 battery_point_def battery_mean_point_def)

end
